theory Spec2Isabelle
  imports Complex_Main "HOL-Library.AList"
begin

section \<open>Library and host interface\<close>

text \<open>
  The functions of \<^verbatim>\<open>pathe\<close>, \<^verbatim>\<open>node:path\<close>, \<^verbatim>\<open>strip-ansi\<close> and of the editor's
  \<^verbatim>\<open>Uri\<close> class are not part of the repository. They are passed to every operation that
  calls them, in one record, and every theorem holds for any choice of them.
  A \<^verbatim>\<open>vscode.Uri\<close> built by \<^verbatim>\<open>Uri.file(p)\<close> is represented by the string \<open>p\<close>;
  \<open>fsPath E p\<close> is its \<^verbatim>\<open>fsPath\<close>.
\<close>

record env =
  normalize :: "string \<Rightarrow> string"
  dirname :: "string \<Rightarrow> string"
  basename :: "string \<Rightarrow> string"
  fsPath :: "string \<Rightarrow> string"
  uriToString :: "string \<Rightarrow> string"
  sep :: char
  stripAnsi :: "string \<Rightarrow> string"

text \<open>A JavaScript number that is read from a parsed stack frame: an integer or \<^verbatim>\<open>NaN\<close>.\<close>

datatype js_number = Num int | NaN

fun isNaN :: "js_number \<Rightarrow> bool" where
  "isNaN NaN = True"
| "isNaN (Num n) = False"

text \<open>\<^verbatim>\<open>x - 1\<close> on such a number.\<close>

fun minus1 :: "js_number \<Rightarrow> js_number" where
  "minus1 NaN = NaN"
| "minus1 (Num n) = Num (n - 1)"

text \<open>\<^verbatim>\<open>xs.join(s)\<close> on an array of strings.\<close>

fun join :: "string \<Rightarrow> string list \<Rightarrow> string" where
  "join s [] = []"
| "join s [x] = x"
| "join s (x # y # ys) = x @ s @ join s (y # ys)"

text \<open>\<^verbatim>\<open>Array.from(new Set(xs))\<close>: the first occurrence of every element, in order.\<close>

fun uniq :: "'a list \<Rightarrow> 'a list" where
  "uniq [] = []"
| "uniq (x # xs) = x # uniq (filter (\<lambda>y. y \<noteq> x) xs)"

section \<open>Data of the runner's reports\<close>

record parsed_stack =
  stack_file :: string
  line :: js_number
  column :: js_number

record test_error =
  message :: string
  stack :: "string option"
  actual :: "string option"
  expected :: "string option"
  stacks :: "parsed_stack list option"

text \<open>
  The declared result states, and \<open>Unknown\<close> for any other string the runner may send at
  run time (the \<^verbatim>\<open>default\<close> branch of \<^verbatim>\<open>markTestCase\<close>).
\<close>

datatype task_state = Fail | Pass | Todo | Skip | Only | Run | Unknown string

record task_result =
  state :: task_state
  errors :: "test_error list option"
  duration :: "real option"

datatype task_type = Suite | Test | Custom | OtherType

text \<open>
  A task of a report. \<open>location\<close> is the 1-based \<^verbatim>\<open>{line, column}\<close> when the runner gave
  one; \<open>tasks\<close> is \<open>Some\<close> exactly when the task object has a \<^verbatim>\<open>tasks\<close> property.
\<close>

datatype task = Task (task_id: string) (name: string) (task_type: task_type)
  (location: "(int \<times> int) option") (result: "task_result option") (tasks: "task list option")

record file_report =
  file_id :: string
  file_filepath :: string
  projectName :: "string option"
  file_tasks :: "task list"
  file_result :: "task_result option"

section \<open>The editor's test items\<close>

datatype position = Position (pos_line: js_number) (pos_character: js_number)

datatype vs_range = Range position position

text \<open>
  Modelled from the editor's API: \<^verbatim>\<open>new vscode.Position(line, character)\<close> throws an
  illegal-argument error when the line or the character is negative, and returns the
  position otherwise; \<^verbatim>\<open>NaN\<close> is not negative.
\<close>

datatype thrown = IllegalArgument

fun negative :: "js_number \<Rightarrow> bool" where
  "negative (Num n) = (n < 0)"
| "negative NaN = False"

definition newPosition :: "js_number \<Rightarrow> js_number \<Rightarrow> thrown + position" where
  "newPosition l c = (if negative l \<or> negative c then Inl IllegalArgument else Inr (Position l c))"

text \<open>\<^verbatim>\<open>xs.map(f)\<close> for an \<open>f\<close> that may throw: the first exception, in order, ends the call.\<close>

fun mapThrowing :: "('a \<Rightarrow> thrown + 'b) \<Rightarrow> 'a list \<Rightarrow> thrown + 'b list" where
  "mapThrowing f [] = Inr []"
| "mapThrowing f (x # xs) =
     (case f x of
        Inl e \<Rightarrow> Inl e
      | Inr y \<Rightarrow> (case mapThrowing f xs of Inl e \<Rightarrow> Inl e | Inr ys \<Rightarrow> Inr (y # ys)))"

record api =
  tag :: string
  workspaceFolder :: string

text \<open>
  Test items are objects with identity, shared between the tree's indices and the child
  collections, so they live in a store and are named by their address.
  A child collection (\<^verbatim>\<open>TestItemCollection\<close>) is an object of its own: the field
  \<open>children\<close> of an item holds the handle of its collection. Handle \<open>0\<close> is
  \<^verbatim>\<open>controller.items\<close>; the item created at address \<open>a\<close> owns the collection \<open>Suc a\<close>.
  A collection is a JavaScript \<^verbatim>\<open>Map\<close> from item id to item, in insertion order.
\<close>

record test_item =
  item_id :: string
  label :: string
  uri :: string
  children :: nat
  parent :: "nat option"
  tags :: "string list"
  item_range :: "vs_range option"
  sortText :: "string option"
  error :: "string option"
  canResolveChildren :: bool
  busy :: bool

text \<open>
  Modelled from the spec: the module \<^verbatim>\<open>testTreeData\<close> (\<^verbatim>\<open>TestFolder\<close>, \<^verbatim>\<open>TestFile\<close>,
  \<^verbatim>\<open>TestSuite\<close>, \<^verbatim>\<open>TestCase\<close>, \<^verbatim>\<open>getTestData\<close>) is not among the sources. The spec
  describes it as a tagged variant attached to a node by identity, looked up through a
  side table. Each \<^verbatim>\<open>register\<close> call stores the variant built from its arguments:
  a folder keeps its parent item, a file its parent item, normalized path, API handle and
  project name, a suite or test case its parent item and the item of its file.
\<close>

datatype test_data =
    TestFolder "nat option"
  | TestFile nat (filepath: string) (file_api: api) (file_project: string)
  | TestSuite nat nat
  | TestCase nat nat

fun isTestFile :: "test_data option \<Rightarrow> bool" where
  "isTestFile (Some (TestFile p f a pr)) = True"
| "isTestFile d = False"

fun isTestFolder :: "test_data option \<Rightarrow> bool" where
  "isTestFolder (Some (TestFolder p)) = True"
| "isTestFolder d = False"

fun isTestCase :: "test_data option \<Rightarrow> bool" where
  "isTestCase (Some (TestCase p f)) = True"
| "isTestCase d = False"

record tree =
  items :: "nat \<Rightarrow> test_item"
  next_item :: nat
  colls :: "nat \<Rightarrow> (string \<times> nat) list"
  testData :: "nat \<Rightarrow> test_data option"
  flatTestItems :: "string \<Rightarrow> nat option"
  fileItems :: "string \<Rightarrow> nat option"
  folderItems :: "string \<Rightarrow> nat option"
  testItemsByFile :: "string \<Rightarrow> nat list option"

section \<open>Error and location resolver (runner.ts)\<close>

record debugger_location =
  path :: string
  dl_line :: js_number
  dl_column :: js_number

record test_message =
  msg_text :: string
  expectedOutput :: "string option"
  actualOutput :: "string option"
  msg_location :: "(string \<times> position) option"

text \<open>\<^verbatim>\<open>stack.file.replace(/\//g, path.sep)\<close> with the line and column of the frame.\<close>

definition getSourceFilepathAndLocationFromStack ::
    "env \<Rightarrow> parsed_stack \<Rightarrow> string \<times> js_number \<times> js_number" where
  "getSourceFilepathAndLocationFromStack E st =
     (map (\<lambda>c. if c = CHR ''/'' then sep E else c) (stack_file st), line st, column st)"

text \<open>
  The loop of \<^verbatim>\<open>parseLocationFromStacks\<close>: a frame is skipped when its path differs from
  the target or its column or line is \<^verbatim>\<open>NaN\<close>; the first other frame is returned.
\<close>

fun stacksLoop :: "env \<Rightarrow> string \<Rightarrow> parsed_stack list \<Rightarrow> debugger_location option" where
  "stacksLoop E targetFilepath [] = None"
| "stacksLoop E targetFilepath (st # rest) =
     (case getSourceFilepathAndLocationFromStack E st of
        (sourceFilepath, l, c) \<Rightarrow>
          if sourceFilepath \<noteq> targetFilepath \<or> isNaN c \<or> isNaN l
          then stacksLoop E targetFilepath rest
          else Some \<lparr>path = sourceFilepath, dl_line = l, dl_column = c\<rparr>)"

definition parseLocationFromStacks ::
    "env \<Rightarrow> test_item \<Rightarrow> parsed_stack list \<Rightarrow> debugger_location option" where
  "parseLocationFromStacks E testItem sts =
     (if sts = [] then None else stacksLoop E (fsPath E (uri testItem)) sts)"

definition testMessageForTestError ::
    "env \<Rightarrow> test_item \<Rightarrow> test_error option \<Rightarrow> thrown + test_message" where
  "testMessageForTestError E testItem err =
     (case err of
        None \<Rightarrow> Inr \<lparr>msg_text = ''Unknown error'', expectedOutput = None, actualOutput = None,
                     msg_location = None\<rparr>
      | Some e \<Rightarrow>
          (let testMessage =
                 (if actual e \<noteq> None \<and> expected e \<noteq> None
                     \<and> actual e \<noteq> Some ''undefined'' \<and> expected e \<noteq> Some ''undefined''
                  then \<lparr>msg_text = stripAnsi E (message e), expectedOutput = expected e,
                        actualOutput = actual e, msg_location = None\<rparr>
                  else \<lparr>msg_text = stripAnsi E (message e), expectedOutput = None,
                        actualOutput = None, msg_location = None\<rparr>)
           in case parseLocationFromStacks E testItem
                     (case stacks e of None \<Rightarrow> [] | Some sts \<Rightarrow> sts) of
                None \<Rightarrow> Inr testMessage
              | Some loc \<Rightarrow>
                  (case newPosition (minus1 (dl_line loc)) (minus1 (dl_column loc)) of
                     Inl x \<Rightarrow> Inl x
                   | Inr position \<Rightarrow>
                       Inr (testMessage\<lparr>msg_location := Some (path loc, position)\<rparr>))))"

section \<open>Marking results (runner.ts)\<close>

text \<open>
  The calls a marking operation makes on the open run object and on the error log, in
  order. Verbose diagnostics (\<^verbatim>\<open>log.verbose?.(...)\<close>) are not recorded.
\<close>

datatype effect =
    Failed nat "test_message list" "real option"
  | Passed nat "real option"
  | Skipped nat
  | Started nat
  | LogError "string list"

definition markTestCase ::
    "env \<Rightarrow> tree \<Rightarrow> nat \<Rightarrow> task_result \<Rightarrow> thrown + effect list" where
  "markTestCase E s test r =
     (case state r of
        Fail \<Rightarrow>
          (case (case errors r of
                   None \<Rightarrow> Inr []
                 | Some es \<Rightarrow>
                     mapThrowing (\<lambda>err. testMessageForTestError E (items s test) (Some err)) es) of
             Inl x \<Rightarrow> Inl x
           | Inr errs \<Rightarrow> Inr (if errs = [] then [] else [Failed test errs (duration r)]))
      | Pass \<Rightarrow> Inr [Passed test (duration r)]
      | Todo \<Rightarrow> Inr [Skipped test]
      | Skip \<Rightarrow> Inr [Skipped test]
      | Only \<Rightarrow> Inr [Started test]
      | Run \<Rightarrow> Inr [Started test]
      | Unknown st \<Rightarrow>
          Inr [LogError [''Unknown test result for'', label (items s test) @ '': '' @ st]])"

text \<open>\<^verbatim>\<open>err.stack || err.message\<close>: the stack unless it is missing or empty.\<close>

definition stackOrMessage :: "test_error \<Rightarrow> string" where
  "stackOrMessage err =
     (case stack err of None \<Rightarrow> message err
      | Some st \<Rightarrow> if st = [] then message err else st)"

definition markSuite :: "tree \<Rightarrow> nat \<Rightarrow> task_result option \<Rightarrow> tree" where
  "markSuite s test res =
     (case res of
        None \<Rightarrow> s
      | Some r \<Rightarrow>
          if state r = Fail then
            (case errors r of
               None \<Rightarrow> s
             | Some es \<Rightarrow>
                 if map stackOrMessage es = [] then s
                 else s\<lparr>items := (items s)(test := (items s test)
                          \<lparr>error := Some (join ''\<newline>'' (map stackOrMessage es))\<rparr>)\<rparr>)
          else s)"

definition markResult ::
    "env \<Rightarrow> tree \<Rightarrow> nat \<Rightarrow> task_result option \<Rightarrow> thrown + effect list \<times> tree" where
  "markResult E s test res =
     (if \<not> isTestCase (testData s test) then Inr ([], markSuite s test res)
      else case res of
             None \<Rightarrow> Inr ([Started test], s)
           | Some r \<Rightarrow>
               (case markTestCase E s test r of
                  Inl x \<Rightarrow> Inl x
                | Inr effects \<Rightarrow> Inr (effects, s)))"

section \<open>Test runs (runner.ts)\<close>

text \<open>
  The entries of the \<^verbatim>\<open>files\<close> argument of \<^verbatim>\<open>startTestRun\<close>: a path that ends in \<^verbatim>\<open>/\<close> is a
  folder, given here with the entries that \<^verbatim>\<open>getTestFilesInFolder\<close> returns for it.
\<close>

datatype run_file = FilePath | FolderPath "run_file list"

text \<open>
  A call that is suspended at its \<^verbatim>\<open>await\<close>: \<^verbatim>\<open>startTestRun\<close> at
  \<^verbatim>\<open>await this.testRunDefer?.promise\<close>, with the signal it awaits, if any, and its
  files; \<^verbatim>\<open>runTestItems\<close> at \<^verbatim>\<open>await this.testRunDefer.promise\<close>.
\<close>

datatype pending = StartWait "nat option" "run_file list" | ItemsWait nat

text \<open>
  The fields \<^verbatim>\<open>testRun\<close> and \<^verbatim>\<open>testRunDefer\<close> of the runner, with the history that is
  needed to say which runs are open. Run objects and completion signals are numbered in
  the order of their creation: \<open>runs\<close> and \<open>defers\<close> count them, \<open>ended\<close> lists the runs on
  which \<^verbatim>\<open>end()\<close> was called and \<open>resolved\<close> the signals that were resolved.
\<close>

record runner =
  testRun :: "nat option"
  testRunDefer :: "nat option"
  runs :: nat
  ended :: "nat list"
  defers :: nat
  resolved :: "nat list"
  waiting :: "pending list"

text \<open>
  \<^verbatim>\<open>endTestRun\<close>: the current run, if there is one, is ended and the pending signal, if
  there is one, is resolved; both fields are cleared.
\<close>

definition endTestRun :: "runner \<Rightarrow> runner" where
  "endTestRun st =
     st\<lparr>ended := (case testRun st of None \<Rightarrow> [] | Some r \<Rightarrow> [r]) @ ended st,
        resolved := (case testRunDefer st of None \<Rightarrow> [] | Some d \<Rightarrow> [d]) @ resolved st,
        testRun := None, testRunDefer := None\<rparr>"


text \<open>The folders among the files, each as the files it holds.\<close>

fun folderFiles :: "run_file list \<Rightarrow> run_file list list" where
  "folderFiles [] = []"
| "folderFiles (FilePath # files) = folderFiles files"
| "folderFiles (FolderPath fs # files) = fs # folderFiles files"

text \<open>
  \<^verbatim>\<open>startTestRun\<close> from \<^verbatim>\<open>createTestRun\<close> to its end. For every folder among the files
  the loop calls \<^verbatim>\<open>startTestRun\<close> without awaiting it; that call has a request, finds
  \<^verbatim>\<open>this.testRun\<close> set and is suspended at its \<^verbatim>\<open>await\<close>.
\<close>

definition openTestRun :: "run_file list \<Rightarrow> runner \<Rightarrow> runner" where
  "openTestRun files st =
     st\<lparr>testRun := Some (runs st), runs := Suc (runs st),
        waiting := waiting st @ map (StartWait (testRunDefer st)) (folderFiles files)\<rparr>"



text \<open>
  \<^verbatim>\<open>runTestItems\<close>, as far as the runner's fields go: it waits for the pending signal, if
  there is one, and then installs a new one.
\<close>

definition runTestItemsResume :: "runner \<Rightarrow> runner" where
  "runTestItemsResume st = st\<lparr>testRunDefer := Some (defers st), defers := Suc (defers st)\<rparr>"




definition dequeue :: "nat \<Rightarrow> runner \<Rightarrow> runner" where
  "dequeue i st = st\<lparr>waiting := take i (waiting st) @ drop (Suc i) (waiting st)\<rparr>"



section \<open>Test tree (testTree.ts)\<close>

subsection \<open>The editor's operations on items and collections\<close>

text \<open>
  Modelled from the editor's API: \<^verbatim>\<open>controller.createTestItem(id, label, uri)\<close> returns
  a new item with an empty child collection of its own, no parent, no tags, no range and
  no error; the new object has no entry in the side table of \<^verbatim>\<open>testTreeData\<close>.
\<close>

definition newItem :: "string \<Rightarrow> string \<Rightarrow> string \<Rightarrow> nat \<Rightarrow> test_item" where
  "newItem i l u c =
     \<lparr>item_id = i, label = l, uri = u, children = c, parent = None, tags = [],
      item_range = None, sortText = None, error = None, canResolveChildren = False,
      busy = False\<rparr>"

definition createTestItem :: "tree \<Rightarrow> string \<Rightarrow> string \<Rightarrow> string \<Rightarrow> nat \<times> tree" where
  "createTestItem s i l u =
     (let a = next_item s
      in (a, s\<lparr>items := (items s)(a := newItem i l u (Suc a)),
               next_item := Suc a,
               colls := (colls s)(Suc a := []),
               testData := (testData s)(a := None)\<rparr>))"

definition updItem :: "tree \<Rightarrow> nat \<Rightarrow> (test_item \<Rightarrow> test_item) \<Rightarrow> tree" where
  "updItem s a f = s\<lparr>items := (items s)(a := f (items s a))\<rparr>"

definition register :: "tree \<Rightarrow> nat \<Rightarrow> test_data \<Rightarrow> tree" where
  "register s a d = s\<lparr>testData := (testData s)(a := Some d)\<rparr>"

text \<open>
  Modelled from the editor's API: \<^verbatim>\<open>p.children.add(item)\<close> stores the item under its id
  (\<^verbatim>\<open>Map.set\<close>: an entry of the same id is replaced in place, a new one is appended).
  An item has one parent: when the item has a parent that is not the owner of the
  collection, the editor then deletes the entry of the item's id from the children of
  that former parent. The editor sets the item's \<^verbatim>\<open>parent\<close> to the item that owns the
  collection, which is \<^verbatim>\<open>undefined\<close> for \<^verbatim>\<open>controller.items\<close>. \<^verbatim>\<open>delete(id)\<close> removes the
  entry and leaves the removed item's fields alone. The key of an entry is the id of
  its item.
\<close>

definition childrenOf :: "tree \<Rightarrow> nat \<Rightarrow> (string \<times> nat) list" where
  "childrenOf s p = colls s (children (items s p))"

definition childrenAdd :: "tree \<Rightarrow> nat \<Rightarrow> nat \<Rightarrow> tree" where
  "childrenAdd s p a =
     (let c = children (items s p);
          owner = (if c = 0 then None else Some p);
          i = item_id (items s a);
          added = (colls s)(c := AList.update i a (colls s c));
          moved = (case parent (items s a) of
                     None \<Rightarrow> added
                   | Some q \<Rightarrow>
                       if Some q = owner then added
                       else added(children (items s q) :=
                              AList.delete i (added (children (items s q)))))
      in s\<lparr>colls := moved, items := (items s)(a := (items s a)\<lparr>parent := owner\<rparr>)\<rparr>)"

definition childrenDelete :: "tree \<Rightarrow> nat \<Rightarrow> string \<Rightarrow> tree" where
  "childrenDelete s p i =
     (let c = children (items s p)
      in s\<lparr>colls := (colls s)(c := AList.delete i (colls s c))\<rparr>)"

subsection \<open>Folder and file nodes\<close>

definition getFileTestItems :: "env \<Rightarrow> tree \<Rightarrow> string \<Rightarrow> nat list" where
  "getFileTestItems E s p =
     (case testItemsByFile s (normalize E p) of None \<Rightarrow> [] | Some xs \<Rightarrow> xs)"

definition createFolderItem :: "env \<Rightarrow> tree \<Rightarrow> string \<Rightarrow> nat option \<Rightarrow> nat \<times> tree" where
  "createFolderItem E s folderUri parentItem =
     (let folderFsPath = normalize E (fsPath E folderUri);
          (folderItem, s1) = createTestItem s folderFsPath (basename E folderFsPath) folderUri;
          s2 = register s1 folderItem (TestFolder parentItem);
          s3 = updItem s2 folderItem (\<lambda>i. i\<lparr>canResolveChildren := False\<rparr>)
      in (folderItem, s3))"

text \<open>
  The inline root is an object literal, not an item of the controller: its
  \<^verbatim>\<open>children\<close> is \<^verbatim>\<open>controller.items\<close> itself (handle \<open>0\<close>).
\<close>

definition getOrCreateInlineFolderItem :: "env \<Rightarrow> tree \<Rightarrow> string \<Rightarrow> nat \<times> tree" where
  "getOrCreateInlineFolderItem E s folderUri =
     (let i = normalize E (fsPath E folderUri)
      in case folderItems s i of
           Some cached \<Rightarrow> (cached, s)
         | None \<Rightarrow>
             (let a = next_item s;
                  s1 = s\<lparr>items := (items s)(a := newItem (uriToString E folderUri) ''<root>''
                                                   folderUri 0),
                         next_item := Suc a,
                         testData := (testData s)(a := None)\<rparr>;
                  s2 = register s1 a (TestFolder None);
                  s3 = s2\<lparr>folderItems := (folderItems s2)(i := Some a)\<rparr>
              in (a, s3)))"

definition getOrCreateWorkspaceFolderItem :: "env \<Rightarrow> tree \<Rightarrow> string \<Rightarrow> nat \<times> tree" where
  "getOrCreateWorkspaceFolderItem E s folderUri =
     (let folderId = normalize E (fsPath E folderUri)
      in case folderItems s folderId of
           Some cached \<Rightarrow> (cached, s)
         | None \<Rightarrow>
             (let (folderItem, s1) = createFolderItem E s folderUri None;
                  s2 = s1\<lparr>folderItems := (folderItems s1)(folderId := Some folderItem)\<rparr>
              in (folderItem, s2)))"

text \<open>
  \<^verbatim>\<open>getOrCreateFolderTestItem\<close> climbs with \<^verbatim>\<open>dirname\<close> until it meets a cached folder.
  Nothing bounds the climb, so the result is optional: \<open>None\<close> stands for a call that
  does not return.
\<close>

partial_function (option) getOrCreateFolderTestItem ::
    "env \<Rightarrow> api \<Rightarrow> tree \<Rightarrow> string \<Rightarrow> (nat \<times> tree) option" where
  "getOrCreateFolderTestItem E ap s normalizedFolder =
     (case folderItems s normalizedFolder of
        Some cached \<Rightarrow>
          Some (cached,
                if tag ap \<in> set (tags (items s cached)) then s
                else updItem s cached (\<lambda>i. i\<lparr>tags := tags i @ [tag ap]\<rparr>))
      | None \<Rightarrow>
          Option.bind (getOrCreateFolderTestItem E ap s (dirname E normalizedFolder))
            (\<lambda>(parentItem, s1).
               let (folderItem, s2) = createFolderItem E s1 normalizedFolder (Some parentItem);
                   s3 = updItem s2 folderItem (\<lambda>i. i\<lparr>tags := [tag ap]\<rparr>);
                   s4 = childrenAdd s3 parentItem folderItem;
                   s5 = s4\<lparr>folderItems := (folderItems s4)(normalizedFolder := Some folderItem)\<rparr>
               in Some (folderItem, s5)))"

definition fileLabel :: "env \<Rightarrow> string \<Rightarrow> string \<Rightarrow> string" where
  "fileLabel E project f =
     (if project \<noteq> [] then ''['' @ project @ ''] '' @ basename E f else basename E f)"

definition getOrCreateFileTestItem ::
    "env \<Rightarrow> api \<Rightarrow> tree \<Rightarrow> string \<Rightarrow> string \<Rightarrow> (nat \<times> tree) option" where
  "getOrCreateFileTestItem E ap s project f =
     (let normalizedFile = normalize E f;
          fileId = normalizedFile @ project
      in case fileItems s fileId of
           Some cached \<Rightarrow> Some (cached, s)
         | None \<Rightarrow>
             Option.bind (getOrCreateFolderTestItem E ap s (dirname E f))
               (\<lambda>(parentItem, s1).
                  let (testFileItem, s2) = createTestItem s1 fileId (fileLabel E project f) f;
                      s3 = updItem s2 testFileItem (\<lambda>i. i\<lparr>tags := [tag ap]\<rparr>);
                      s4 = updItem s3 testFileItem (\<lambda>i. i\<lparr>canResolveChildren := True\<rparr>);
                      s5 = register s4 testFileItem (TestFile parentItem normalizedFile ap project);
                      s6 = childrenAdd s5 parentItem testFileItem;
                      s7 = s6\<lparr>fileItems := (fileItems s6)(fileId := Some testFileItem)\<rparr>;
                      cachedItems = (case testItemsByFile s7 normalizedFile of
                                       None \<Rightarrow> [] | Some xs \<Rightarrow> xs);
                      s8 = s7\<lparr>testItemsByFile := (testItemsByFile s7)
                                 (normalizedFile := Some (cachedItems @ [testFileItem]))\<rparr>
                  in Some (testFileItem, s8)))"

subsection \<open>Resetting the tree\<close>

text \<open>
  Modelled from the editor's API: \<^verbatim>\<open>replace(items)\<close> makes the collection hold exactly
  the given items, in order, and sets their \<^verbatim>\<open>parent\<close> as \<^verbatim>\<open>add\<close> does. The collection
  is named by its handle and the owner is given with it, since \<^verbatim>\<open>controller.items\<close>
  (handle \<open>0\<close>, owner \<^verbatim>\<open>undefined\<close>) belongs to no item.
\<close>

definition childrenReplace :: "tree \<Rightarrow> nat \<Rightarrow> nat option \<Rightarrow> nat list \<Rightarrow> tree" where
  "childrenReplace s c owner its =
     s\<lparr>colls := (colls s)(c := map (\<lambda>a. (item_id (items s a), a)) its),
       items := (\<lambda>a. if a \<in> set its then (items s a)\<lparr>parent := owner\<rparr> else items s a)\<rparr>"

fun workspaceFolderItems :: "env \<Rightarrow> tree \<Rightarrow> string list \<Rightarrow> nat list \<times> tree" where
  "workspaceFolderItems E s [] = ([], s)"
| "workspaceFolderItems E s (u # us) =
     (let (item, s1) = getOrCreateWorkspaceFolderItem E s u;
          s2 = childrenReplace s1 (children (items s1 item)) (Some item) [];
          s3 = updItem s2 item (\<lambda>i. i\<lparr>busy := True\<rparr>);
          (rest, s4) = workspaceFolderItems E s3 us
      in (item # rest, s4))"

text \<open>
  \<^verbatim>\<open>reset\<close>, without the file-system watchers. \<open>loaderItem\<close> is the item the tree was
  constructed with.
\<close>

definition reset :: "env \<Rightarrow> nat \<Rightarrow> tree \<Rightarrow> string list \<Rightarrow> tree" where
  "reset E loaderItem s workspaceFolders =
     (let s1 = s\<lparr>folderItems := (\<lambda>k. None), testItemsByFile := (\<lambda>k. None),
                 fileItems := (\<lambda>k. None), flatTestItems := (\<lambda>k. None)\<rparr>;
          s2 = updItem s1 loaderItem (\<lambda>i. i\<lparr>busy := True\<rparr>)
      in case workspaceFolders of
           [u] \<Rightarrow>
             (let (rootItem, s3) = getOrCreateInlineFolderItem E s2 u;
                  c = children (items s3 rootItem)
              in childrenReplace s3 c (if c = 0 then None else Some rootItem) [loaderItem])
         | us \<Rightarrow>
             (let (folders, s3) = workspaceFolderItems E s2 us
              in childrenReplace s3 0 None folders))"

subsection \<open>Pruning after a file deletion\<close>

text \<open>
  One round of \<^verbatim>\<open>recursiveDelete\<close> for an item whose parent is \<open>p\<close>, up to the test on
  the parent's remaining children.
\<close>

definition deleteStep :: "tree \<Rightarrow> nat \<Rightarrow> nat \<Rightarrow> tree" where
  "deleteStep s item p =
     (let s1 = childrenDelete s p (item_id (items s item));
          s2 = s1\<lparr>flatTestItems := (flatTestItems s1)(item_id (items s1 item) := None)\<rparr>;
          s3 = (case testData s2 item of
                  Some (TestFile pr fp ap pj) \<Rightarrow>
                    s2\<lparr>testItemsByFile := (testItemsByFile s2)(fp := None),
                       fileItems := (fileItems s2)(item_id (items s2 item) := None)\<rparr>
                | d \<Rightarrow> s2)
      in if isTestFolder (testData s3 item)
         then s3\<lparr>folderItems := (folderItems s3)(item_id (items s3 item) := None)\<rparr>
         else s3)"

text \<open>
  The recursion follows the \<^verbatim>\<open>parent\<close> links, which nothing in the function bounds:
  \<open>None\<close> stands for a call that does not return.
\<close>

partial_function (option) recursiveDelete :: "tree \<Rightarrow> nat \<Rightarrow> tree option" where
  "recursiveDelete s item =
     (case parent (items s item) of
        None \<Rightarrow> Some s
      | Some p \<Rightarrow>
          (let s4 = deleteStep s item p
           in if childrenOf s4 p = [] then recursiveDelete s4 p else Some s4))"

text \<open>The watcher's \<^verbatim>\<open>onDidDelete\<close> callback: every file node of the path is pruned.\<close>

fun deleteEach :: "tree \<Rightarrow> nat list \<Rightarrow> tree option" where
  "deleteEach s [] = Some s"
| "deleteEach s (item # rest) =
     Option.bind (recursiveDelete s item) (\<lambda>s1. deleteEach s1 rest)"

definition onDidDelete :: "env \<Rightarrow> tree \<Rightarrow> string \<Rightarrow> tree option" where
  "onDidDelete E s f =
     (case testItemsByFile s (normalize E (fsPath E f)) of
        None \<Rightarrow> Some s
      | Some its \<Rightarrow> deleteEach s its)"

subsection \<open>Synchronising with a collection report\<close>

text \<open>\<^verbatim>\<open>r?.errors\<close> of an optional result.\<close>

definition resultErrors :: "task_result option \<Rightarrow> test_error list option" where
  "resultErrors res = (case res of None \<Rightarrow> None | Some r \<Rightarrow> errors r)"

definition stackText :: "test_error \<Rightarrow> string" where
  "stackText err = (case stack err of None \<Rightarrow> [] | Some st \<Rightarrow> st)"

text \<open>
  The last loop of \<^verbatim>\<open>collectTasks\<close>: every child whose id is not a reported id is
  deleted from the parent's collection.
\<close>

definition pruneChildren :: "string list \<Rightarrow> nat \<Rightarrow> tree \<Rightarrow> tree" where
  "pruneChildren ids par s =
     (let c = children (items s par)
      in s\<lparr>colls := (colls s)(c := filter (\<lambda>(k, v). k \<in> set ids) (colls s c))\<rparr>)"

text \<open>
  The body of the loop of \<^verbatim>\<open>collectTasks\<close> for one task, up to the recursive call: the
  item of the task is reused from the index or created, refreshed, registered, indexed
  and added to the parent. The result is the item and the new tree. The call throws
  when the editor refuses the position of the task's location; nothing is said then of
  the tree that the steps before have changed.
\<close>

definition refreshTask ::
    "string \<Rightarrow> nat \<Rightarrow> task \<Rightarrow> nat \<Rightarrow> tree \<Rightarrow> thrown + nat \<times> tree" where
  "refreshTask tg fileData t par s =
     (case t of Task tid nm ty loc res sub \<Rightarrow>
        (let (testItem, s1) = (case flatTestItems s tid of
                                 Some a \<Rightarrow> (a, s)
                               | None \<Rightarrow> createTestItem s tid nm (uri (items s par)));
             s2 = updItem s1 testItem (\<lambda>i. i\<lparr>tags := uniq (tags (items s1 par) @ [tg])\<rparr>);
             s3 = updItem s2 testItem (\<lambda>i. i\<lparr>error := None\<rparr>);
             s4 = updItem s3 testItem (\<lambda>i. i\<lparr>label := nm\<rparr>)
         in case (case loc of
                    Some (lno, cno) \<Rightarrow>
                      (case newPosition (Num (lno - 1)) (Num cno) of
                         Inl x \<Rightarrow> Inl x
                       | Inr position \<Rightarrow>
                           Inr (updItem s4 testItem
                                  (\<lambda>i. i\<lparr>item_range := Some (Range position position)\<rparr>)))
                  | None \<Rightarrow> Inr (updItem s4 testItem (\<lambda>i. i\<lparr>sortText := Some tid\<rparr>))) of
              Inl x \<Rightarrow> Inl x
            | Inr s5 \<Rightarrow>
                (let s6 = (if ty = Suite then register s5 testItem (TestSuite par fileData)
                           else if ty = Test \<or> ty = Custom
                                then register s5 testItem (TestCase par fileData)
                                else s5);
                     s7 = s6\<lparr>flatTestItems := (flatTestItems s6)(tid := Some testItem)\<rparr>;
                     s8 = childrenAdd s7 par testItem;
                     s9 = (case resultErrors res of
                             Some es \<Rightarrow>
                               updItem s8 testItem
                                 (\<lambda>i. i\<lparr>error := Some (join ''\<newline>'' (map stackText es))\<rparr>)
                           | None \<Rightarrow> s8)
                 in Inr (testItem, s9))))"

fun collectTasks :: "string \<Rightarrow> nat \<Rightarrow> task list \<Rightarrow> nat \<Rightarrow> tree \<Rightarrow> thrown + tree"
  and collectLoop :: "string \<Rightarrow> nat \<Rightarrow> task list \<Rightarrow> nat \<Rightarrow> tree \<Rightarrow> thrown + tree"
  and collectTask :: "string \<Rightarrow> nat \<Rightarrow> task \<Rightarrow> nat \<Rightarrow> tree \<Rightarrow> thrown + tree" where
  "collectTasks tg fileData ts par s =
     (case collectLoop tg fileData ts par s of
        Inl x \<Rightarrow> Inl x
      | Inr s' \<Rightarrow> Inr (pruneChildren (map task_id ts) par s'))"
| "collectLoop tg fileData [] par s = Inr s"
| "collectLoop tg fileData (t # ts) par s =
     (case collectTask tg fileData t par s of
        Inl x \<Rightarrow> Inl x
      | Inr s1 \<Rightarrow> collectLoop tg fileData ts par s1)"
| "collectTask tg fileData (Task tid nm ty loc res sub) par s =
     (case refreshTask tg fileData (Task tid nm ty loc res sub) par s of
        Inl x \<Rightarrow> Inl x
      | Inr (testItem, s9) \<Rightarrow>
          (case sub of
             None \<Rightarrow> Inr s9
           | Some ts \<Rightarrow> collectTasks tg fileData ts testItem s9))"

text \<open>
  \<^verbatim>\<open>collectFile\<close>: no value when the search for the folder of the file does not return,
  and an exception when \<^verbatim>\<open>collectTasks\<close> throws.
\<close>

definition collectFile :: "env \<Rightarrow> api \<Rightarrow> tree \<Rightarrow> file_report \<Rightarrow> (thrown + tree) option" where
  "collectFile E ap s f =
     Option.bind
       (getOrCreateFileTestItem E ap s (case projectName f of None \<Rightarrow> [] | Some p \<Rightarrow> p)
          (file_filepath f))
       (\<lambda>(fileTestItem, s1).
          let s2 = updItem s1 fileTestItem (\<lambda>i. i\<lparr>error := None\<rparr>);
              s3 = s2\<lparr>flatTestItems := (flatTestItems s2)(file_id f := Some fileTestItem)\<rparr>
          in Some (case collectTasks (tag ap) fileTestItem (file_tasks f) fileTestItem s3 of
                     Inl x \<Rightarrow> Inl x
                   | Inr s4 \<Rightarrow>
                       (let s5 = (case resultErrors (file_result f) of
                                    Some es \<Rightarrow>
                                      updItem s4 fileTestItem
                                        (\<lambda>i. i\<lparr>error :=
                                           Some (join ''\<newline>'' (map stackOrMessage es))\<rparr>)
                                  | None \<Rightarrow>
                                      if file_tasks f = []
                                      then updItem s4 fileTestItem
                                             (\<lambda>i. i\<lparr>error :=
                                                Some (''No tests found in '' @ file_filepath f)\<rparr>)
                                      else s4)
                        in Inr (updItem s5 fileTestItem (\<lambda>i. i\<lparr>canResolveChildren := False\<rparr>)))))"

section \<open>Reference definitions\<close>

text \<open>
  A concrete instance of the library interface for the closed examples: paths are
  POSIX paths that are already normalized, and messages carry no colour codes.
\<close>

definition posixDirname :: "string \<Rightarrow> string" where
  "posixDirname p =
     (let d = rev (drop 1 (dropWhile (\<lambda>c. c \<noteq> CHR ''/'') (rev p)))
      in if d = [] then ''/'' else d)"

definition posixBasename :: "string \<Rightarrow> string" where
  "posixBasename p = rev (takeWhile (\<lambda>c. c \<noteq> CHR ''/'') (rev p))"

definition posixEnv :: env where
  "posixEnv =
     \<lparr>normalize = (\<lambda>p. p), dirname = posixDirname, basename = posixBasename,
      fsPath = (\<lambda>p. p), uriToString = (\<lambda>p. ''file://'' @ p), sep = CHR ''/'',
      stripAnsi = (\<lambda>m. m)\<rparr>"

definition emptyTree :: tree where
  "emptyTree =
     \<lparr>items = (\<lambda>a. newItem [] [] [] 0), next_item = 0, colls = (\<lambda>c. []),
      testData = (\<lambda>a. None), flatTestItems = (\<lambda>k. None), fileItems = (\<lambda>k. None),
      folderItems = (\<lambda>k. None), testItemsByFile = (\<lambda>k. None)\<rparr>"

definition plainError :: "string \<Rightarrow> test_error" where
  "plainError m = \<lparr>message = m, stack = None, actual = None, expected = None, stacks = None\<rparr>"

text \<open>
  The resolver in the words of the specification: a diff is wanted when both values are
  present and neither is the string \<^verbatim>\<open>undefined\<close>; a frame matches when its path, with
  the separators of the host, is the target path and its line and column are numbers;
  the location comes from the first matching frame.
\<close>

definition wantsDiff :: "test_error \<Rightarrow> bool" where
  "wantsDiff e =
     (case (actual e, expected e) of
        (Some a, Some x) \<Rightarrow> a \<noteq> ''undefined'' \<and> x \<noteq> ''undefined''
      | other \<Rightarrow> False)"

definition frameMatches :: "env \<Rightarrow> string \<Rightarrow> parsed_stack \<Rightarrow> bool" where
  "frameMatches E target st =
     (map (\<lambda>c. if c = CHR ''/'' then sep E else c) (stack_file st) = target
      \<and> line st \<noteq> NaN \<and> column st \<noteq> NaN)"

definition firstFrameLocation ::
    "env \<Rightarrow> test_item \<Rightarrow> test_error \<Rightarrow> (string \<times> position) option" where
  "firstFrameLocation E testItem e =
     (case find (frameMatches E (fsPath E (uri testItem)))
             (case stacks e of None \<Rightarrow> [] | Some sts \<Rightarrow> sts) of
        None \<Rightarrow> None
      | Some st \<Rightarrow>
          Some (fsPath E (uri testItem), Position (minus1 (line st)) (minus1 (column st))))"

text \<open>
  A line or column below one is not 1-based: the position one less is negative, which the
  editor refuses. A reported error is refused when its first matching frame has such a
  line or column.
\<close>

fun belowOne :: "js_number \<Rightarrow> bool" where
  "belowOne (Num n) = (n < 1)"
| "belowOne NaN = False"

definition refusedFrame :: "env \<Rightarrow> test_item \<Rightarrow> test_error \<Rightarrow> bool" where
  "refusedFrame E testItem e =
     (case find (frameMatches E (fsPath E (uri testItem)))
             (case stacks e of None \<Rightarrow> [] | Some sts \<Rightarrow> sts) of
        None \<Rightarrow> False
      | Some st \<Rightarrow> belowOne (line st) \<or> belowOne (column st))"

text \<open>The message of the specification for a reported error.\<close>

definition resolvedMessage :: "env \<Rightarrow> test_item \<Rightarrow> test_error \<Rightarrow> test_message" where
  "resolvedMessage E testItem e =
     \<lparr>msg_text = stripAnsi E (message e),
      expectedOutput = (if wantsDiff e then expected e else None),
      actualOutput = (if wantsDiff e then actual e else None),
      msg_location = firstFrameLocation E testItem e\<rparr>"

text \<open>A parsed stack frame with a numeric line and column, and an error with such frames.\<close>

definition frame :: "string \<Rightarrow> int \<Rightarrow> int \<Rightarrow> parsed_stack" where
  "frame f l c = \<lparr>stack_file = f, line = Num l, column = Num c\<rparr>"

definition framedError :: "string \<Rightarrow> parsed_stack list \<Rightarrow> test_error" where
  "framedError m sts = (plainError m)\<lparr>stacks := Some sts\<rparr>"

text \<open>The errors of a result that reports a failure: none for any other result.\<close>

definition suiteErrors :: "task_result option \<Rightarrow> test_error list" where
  "suiteErrors res =
     (case res of
        None \<Rightarrow> []
      | Some r \<Rightarrow> if state r = Fail then (case errors r of None \<Rightarrow> [] | Some es \<Rightarrow> es) else [])"

text \<open>
  The path to the root: \<open>ancestry s a ps\<close> holds when \<open>ps\<close> lists the ancestors of \<open>a\<close>
  along the \<^verbatim>\<open>parent\<close> links, nearest first, up to an item without a parent.
  \<open>handle s p\<close> is the child collection of \<open>p\<close>.
\<close>

fun ancestry :: "tree \<Rightarrow> nat \<Rightarrow> nat list \<Rightarrow> bool" where
  "ancestry s a [] = (parent (items s a) = None)"
| "ancestry s a (p # ps) = (parent (items s a) = Some p \<and> ancestry s p ps)"

definition handle :: "tree \<Rightarrow> nat \<Rightarrow> nat" where
  "handle s p = children (items s p)"

text \<open>
  The pruning in the words of the specification: a node with a parent is deleted, and
  then each ancestor in turn, as long as the ancestor is left childless (its only child
  was the node deleted before it) and has a parent itself. An item without a parent, the
  root of the path, is never deleted.
\<close>

fun pruned :: "tree \<Rightarrow> nat \<Rightarrow> nat list \<Rightarrow> nat list" where
  "pruned s a [] = []"
| "pruned s a (p # ps) =
     a # (if list_all (\<lambda>(k, v). k = item_id (items s a)) (childrenOf s p)
          then pruned s p ps else [])"

text \<open>\<^verbatim>\<open>recursiveDelete\<close> unrolled along a given path, for the proofs.\<close>

fun deleteAlong :: "tree \<Rightarrow> nat \<Rightarrow> nat list \<Rightarrow> tree" where
  "deleteAlong s a [] = s"
| "deleteAlong s a (p # ps) =
     (let s4 = deleteStep s a p
      in if childrenOf s4 p = [] then deleteAlong s4 p ps else s4)"

text \<open>
  Concrete trees for the closed examples. The tree is constructed with a loader item and
  reset for the workspace folders; the file nodes are then discovered.
\<close>

definition demoApi :: api where
  "demoApi = \<lparr>tag = ''vitest'', workspaceFolder = ''/ws''\<rparr>"

definition loaderTree :: tree where
  "loaderTree = snd (createTestItem emptyTree ''loader'' ''Loading'' [])"

text \<open>
  The tree of a single workspace folder \<^verbatim>\<open>/ws\<close> after \<^verbatim>\<open>reset\<close> (item 0 is the loader,
  item 1 the inline root, whose children are \<^verbatim>\<open>controller.items\<close>) and the discovery of
  the test file \<^verbatim>\<open>/ws/a.test.ts\<close> (item 2), which lies directly in the workspace folder.
\<close>

definition singleRootTree :: tree where
  "singleRootTree =
     \<lparr>items = (\<lambda>a. if a = 0 then (newItem ''loader'' ''Loading'' [] 1)\<lparr>busy := True\<rparr>
                   else if a = 1 then (newItem ''file:///ws'' ''<root>'' ''/ws'' 0)
                                        \<lparr>tags := [''vitest'']\<rparr>
                   else if a = 2 then (newItem ''/ws/a.test.ts'' ''a.test.ts'' ''/ws/a.test.ts'' 3)
                                        \<lparr>tags := [''vitest''], canResolveChildren := True\<rparr>
                   else newItem [] [] [] 0),
      next_item = 3,
      colls = (\<lambda>c. if c = 0 then [(''loader'', 0), (''/ws/a.test.ts'', 2)] else []),
      testData = (\<lambda>a. if a = 1 then Some (TestFolder None)
                      else if a = 2 then Some (TestFile 1 ''/ws/a.test.ts'' demoApi [])
                      else None),
      flatTestItems = (\<lambda>k. None),
      fileItems = (\<lambda>k. if k = ''/ws/a.test.ts'' then Some 2 else None),
      folderItems = (\<lambda>k. if k = ''/ws'' then Some 1 else None),
      testItemsByFile = (\<lambda>k. if k = ''/ws/a.test.ts'' then Some [2] else None)\<rparr>"

text \<open>
  The same after the discovery of \<^verbatim>\<open>/ws/src/a.test.ts\<close> instead: item 2 is the folder
  \<^verbatim>\<open>/ws/src\<close>, a child of \<^verbatim>\<open>controller.items\<close> without a parent, and item 3 the file node.
\<close>

definition nestedRootTree :: tree where
  "nestedRootTree =
     \<lparr>items = (\<lambda>a. if a = 0 then (newItem ''loader'' ''Loading'' [] 1)\<lparr>busy := True\<rparr>
                   else if a = 1 then (newItem ''file:///ws'' ''<root>'' ''/ws'' 0)
                                        \<lparr>tags := [''vitest'']\<rparr>
                   else if a = 2 then (newItem ''/ws/src'' ''src'' ''/ws/src'' 3)
                                        \<lparr>tags := [''vitest'']\<rparr>
                   else if a = 3 then (newItem ''/ws/src/a.test.ts'' ''a.test.ts''
                                         ''/ws/src/a.test.ts'' 4)
                                        \<lparr>parent := Some 2, tags := [''vitest''],
                                         canResolveChildren := True\<rparr>
                   else newItem [] [] [] 0),
      next_item = 4,
      colls = (\<lambda>c. if c = 0 then [(''loader'', 0), (''/ws/src'', 2)]
                    else if c = 3 then [(''/ws/src/a.test.ts'', 3)] else []),
      testData = (\<lambda>a. if a = 1 then Some (TestFolder None)
                      else if a = 2 then Some (TestFolder (Some 1))
                      else if a = 3 then Some (TestFile 2 ''/ws/src/a.test.ts'' demoApi [])
                      else None),
      flatTestItems = (\<lambda>k. None),
      fileItems = (\<lambda>k. if k = ''/ws/src/a.test.ts'' then Some 3 else None),
      folderItems = (\<lambda>k. if k = ''/ws'' then Some 1 else if k = ''/ws/src'' then Some 2 else None),
      testItemsByFile = (\<lambda>k. if k = ''/ws/src/a.test.ts'' then Some [3] else None)\<rparr>"

text \<open>
  A tree with the workspace folders \<^verbatim>\<open>/ws\<close> (item 1) and \<^verbatim>\<open>/lib\<close> (item 2) at the top
  level, the folder \<^verbatim>\<open>/ws/src\<close> (item 3) and in it the file nodes listed in \<open>fs\<close>, as
  \<open>(address, project)\<close>, all for the path \<^verbatim>\<open>/ws/src/a.test.ts\<close>.
\<close>

definition folderNode :: "string \<Rightarrow> string \<Rightarrow> nat \<Rightarrow> nat option \<Rightarrow> test_item" where
  "folderNode i l c par = (newItem i l i c)\<lparr>parent := par, tags := [''vitest'']\<rparr>"

definition fileNode :: "string \<Rightarrow> nat \<Rightarrow> test_item" where
  "fileNode project a =
     (newItem (''/ws/src/a.test.ts'' @ project) (fileLabel posixEnv project ''/ws/src/a.test.ts'')
        ''/ws/src/a.test.ts'' (Suc a))
       \<lparr>parent := Some 3, tags := [''vitest''], canResolveChildren := True\<rparr>"

definition multiRoot :: "(nat \<times> string) list \<Rightarrow> tree" where
  "multiRoot fs =
     \<lparr>items = (\<lambda>a. case map_of fs a of
                     Some project \<Rightarrow> fileNode project a
                   | None \<Rightarrow>
                       if a = 1 then folderNode ''/ws'' ''ws'' 2 None
                       else if a = 2 then folderNode ''/lib'' ''lib'' 3 None
                       else if a = 3 then folderNode ''/ws/src'' ''src'' 4 (Some 1)
                       else newItem [] [] [] (Suc a)),
      next_item = 4 + length fs,
      colls = (\<lambda>c. if c = 0 then [(''/ws'', 1), (''/lib'', 2)]
                    else if c = 2 then [(''/ws/src'', 3)]
                    else if c = 4 then map (\<lambda>(a, project). (''/ws/src/a.test.ts'' @ project, a)) fs
                    else []),
      testData = (\<lambda>a. case map_of fs a of
                        Some project \<Rightarrow> Some (TestFile 3 ''/ws/src/a.test.ts'' demoApi project)
                      | None \<Rightarrow>
                          if a = 1 \<or> a = 2 then Some (TestFolder None)
                          else if a = 3 then Some (TestFolder (Some 1))
                          else None),
      flatTestItems = (\<lambda>k. None),
      fileItems = (\<lambda>k. map_of (map (\<lambda>(a, project). (''/ws/src/a.test.ts'' @ project, a)) fs) k),
      folderItems = (\<lambda>k. if k = ''/ws'' then Some 1 else if k = ''/lib'' then Some 2
                          else if k = ''/ws/src'' then Some 3 else None),
      testItemsByFile = (\<lambda>k. if k = ''/ws/src/a.test.ts'' then Some (map fst fs) else None)\<rparr>"

definition multiRootTree :: tree where
  "multiRootTree = multiRoot [(4, [])]"

definition twoProjectTree :: tree where
  "twoProjectTree = multiRoot [(4, ''web''), (5, ''node'')]"

text \<open>What a call changes for the items that existed before it.\<close>

definition keepsItems :: "tree \<Rightarrow> tree \<Rightarrow> bool" where
  "keepsItems s s' \<longleftrightarrow>
     next_item s \<le> next_item s'
     \<and> (\<forall>x < next_item s. (items s' x)\<lparr>tags := []\<rparr> = (items s x)\<lparr>tags := []\<rparr>)"

text \<open>
  The tree that \<^verbatim>\<open>getOrCreateFileTestItem\<close> returns when it creates the node, given the
  parent folder and the tree that \<^verbatim>\<open>getOrCreateFolderTestItem\<close> returned; for the proofs.
\<close>

definition newFileTree :: "env \<Rightarrow> api \<Rightarrow> tree \<Rightarrow> nat \<Rightarrow> string \<Rightarrow> string \<Rightarrow> tree" where
  "newFileTree E ap s1 parentItem project f =
     (let a = next_item s1;
          s6 = childrenAdd
                 (register
                    (updItem
                       (updItem (snd (createTestItem s1 (normalize E f @ project)
                                        (fileLabel E project f) f))
                          a (\<lambda>i. i\<lparr>tags := [tag ap]\<rparr>))
                       a (\<lambda>i. i\<lparr>canResolveChildren := True\<rparr>))
                    a (TestFile parentItem (normalize E f) ap project))
                 parentItem a
      in s6\<lparr>fileItems := (fileItems s1)(normalize E f @ project := Some a),
             testItemsByFile := (testItemsByFile s1)
               (normalize E f := Some ((case testItemsByFile s1 (normalize E f) of
                                          None \<Rightarrow> [] | Some xs \<Rightarrow> xs) @ [a]))\<rparr>)"

subsection \<open>Synchronising with a collection report\<close>

text \<open>The ids of the tasks of a report, nested ones included, in the order of the traversal.\<close>

fun allIds :: "task list \<Rightarrow> string list"
  and taskIds :: "task \<Rightarrow> string list" where
  "allIds [] = []"
| "allIds (t # ts) = taskIds t @ allIds ts"
| "taskIds (Task tid nm ty loc res sub) = tid # (case sub of None \<Rightarrow> [] | Some ts \<Rightarrow> allIds ts)"

text \<open>The tasks of a report, nested ones included.\<close>

fun allTasks :: "task list \<Rightarrow> task list"
  and subTasks :: "task \<Rightarrow> task list" where
  "allTasks [] = []"
| "allTasks (t # ts) = subTasks t @ allTasks ts"
| "subTasks (Task tid nm ty loc res sub) =
     Task tid nm ty loc res sub # (case sub of None \<Rightarrow> [] | Some ts \<Rightarrow> allTasks ts)"

text \<open>The empty range at a point, \<^verbatim>\<open>new Range(position, position)\<close>.\<close>

definition pointRange :: "int \<Rightarrow> int \<Rightarrow> vs_range" where
  "pointRange l c = Range (Position (Num l) (Num c)) (Position (Num l) (Num c))"

text \<open>
  The location of the task, if it has one, has a line of at least one and a column that is not
  negative, as every 1-based location has: the editor accepts the position of the line
  before.
\<close>

definition locatable :: "task \<Rightarrow> bool" where
  "locatable t \<longleftrightarrow> (case location t of None \<Rightarrow> True | Some (l, c) \<Rightarrow> 1 \<le> l \<and> 0 \<le> c)"

text \<open>
  The body of the loop after the item \<open>testItem\<close> has been found or created in \<open>s1\<close>,
  when the editor accepts the position: the steps of \<^verbatim>\<open>refreshTask\<close> from the tags to
  the error text.
\<close>

definition touchItem ::
    "string \<Rightarrow> nat \<Rightarrow> task \<Rightarrow> nat \<Rightarrow> nat \<Rightarrow> tree \<Rightarrow> tree" where
  "touchItem tg fileData t par testItem s1 =
     (case t of Task tid nm ty loc res sub \<Rightarrow>
        (let s2 = updItem s1 testItem (\<lambda>i. i\<lparr>tags := uniq (tags (items s1 par) @ [tg])\<rparr>);
             s3 = updItem s2 testItem (\<lambda>i. i\<lparr>error := None\<rparr>);
             s4 = updItem s3 testItem (\<lambda>i. i\<lparr>label := nm\<rparr>);
             s5 = (case loc of
                     Some (lno, cno) \<Rightarrow>
                       updItem s4 testItem (\<lambda>i. i\<lparr>item_range := Some (pointRange (lno - 1) cno)\<rparr>)
                   | None \<Rightarrow> updItem s4 testItem (\<lambda>i. i\<lparr>sortText := Some tid\<rparr>));
             s6 = (if ty = Suite then register s5 testItem (TestSuite par fileData)
                   else if ty = Test \<or> ty = Custom
                        then register s5 testItem (TestCase par fileData)
                        else s5);
             s7 = s6\<lparr>flatTestItems := (flatTestItems s6)(tid := Some testItem)\<rparr>;
             s8 = childrenAdd s7 par testItem
         in case resultErrors res of
              Some es \<Rightarrow>
                updItem s8 testItem
                  (\<lambda>i. i\<lparr>error := Some (join ''\<newline>'' (map stackText es))\<rparr>)
            | None \<Rightarrow> s8))"

text \<open>
  The index of the tree is sound for the ids of \<open>U\<close>: an indexed id leads to an existing
  item that carries this id.
\<close>

definition indexOk :: "string set \<Rightarrow> tree \<Rightarrow> bool" where
  "indexOk U s \<longleftrightarrow>
     (\<forall>t \<in> U. \<forall>a. flatTestItems s t = Some a \<longrightarrow> a < next_item s \<and> item_id (items s a) = t)"

text \<open>
  What a synchronisation with tasks of the ids \<open>ids\<close> may change of the items and the
  index: items with other ids stay as they are, no item changes its id, new items carry
  ids of \<open>ids\<close>, and the index changes at \<open>ids\<close> only, where it is sound afterwards.
\<close>

definition touchesOnly :: "string set \<Rightarrow> tree \<Rightarrow> tree \<Rightarrow> bool" where
  "touchesOnly ids s s' \<longleftrightarrow>
     next_item s \<le> next_item s'
     \<and> (\<forall>x < next_item s. item_id (items s' x) = item_id (items s x))
     \<and> (\<forall>x < next_item s. item_id (items s x) \<notin> ids \<longrightarrow> items s' x = items s x)
     \<and> (\<forall>x. next_item s \<le> x \<and> x < next_item s' \<longrightarrow> item_id (items s' x) \<in> ids)
     \<and> (\<forall>t. t \<notin> ids \<longrightarrow> flatTestItems s' t = flatTestItems s t)
     \<and> (\<forall>t \<in> ids. \<exists>a. flatTestItems s' t = Some a \<and> a < next_item s'
                        \<and> item_id (items s' a) = t)"

text \<open>
  Every task of \<open>T\<close> that has a location is indexed, and the range of its item is the
  point one line before the location, in the same column.
\<close>

definition rangesShown :: "task set \<Rightarrow> tree \<Rightarrow> bool" where
  "rangesShown T s \<longleftrightarrow>
     (\<forall>t \<in> T. \<forall>l c. location t = Some (l, c) \<longrightarrow>
        (\<exists>a. flatTestItems s (task_id t) = Some a
              \<and> item_range (items s a) = Some (pointRange (l - 1) c)))"

text \<open>A test and a suite without location or result, for the closed examples.\<close>

definition leafTask :: "string \<Rightarrow> string \<Rightarrow> task" where
  "leafTask i n = Task i n Test None None None"

definition suiteTask :: "string \<Rightarrow> string \<Rightarrow> task list \<Rightarrow> task" where
  "suiteTask i n ts = Task i n Suite None None (Some ts)"

text \<open>A sequence of \<^verbatim>\<open>collectTasks\<close> calls on one parent, one call for each report.\<close>

fun collectAll :: "string \<Rightarrow> nat \<Rightarrow> nat \<Rightarrow> task list list \<Rightarrow> tree \<Rightarrow> thrown + tree" where
  "collectAll tg fd par [] s = Inr s"
| "collectAll tg fd par (ts # reports) s =
     (case collectTasks tg fd ts par s of
        Inl x \<Rightarrow> Inl x
      | Inr s' \<Rightarrow> collectAll tg fd par reports s')"

text \<open>
  A report for the file of the example tree that has no task and a result whose list of
  errors is empty.
\<close>

definition emptyReport :: file_report where
  "emptyReport =
     \<lparr>file_id = ''f1'', file_filepath = ''/ws/src/a.test.ts'', projectName = None,
      file_tasks = [],
      file_result = Some \<lparr>state = Fail, errors = Some [], duration = None\<rparr>\<rparr>"

subsection \<open>Test runs\<close>



text \<open>
  The invariant: a run that was opened and not ended is the current run, the current
  run was opened, and only opened runs were ended.
\<close>

definition currentOnly :: "runner \<Rightarrow> bool" where
  "currentOnly st \<longleftrightarrow>
     (\<forall>r < runs st. r \<notin> set (ended st) \<longrightarrow> testRun st = Some r)
     \<and> (\<forall>r. testRun st = Some r \<longrightarrow> r < runs st)
     \<and> (\<forall>r \<in> set (ended st). r < runs st)"

section \<open>Properties\<close>

subsection \<open>Messages and locations of reported errors\<close>

lemma isNaN_iff: "isNaN n \<longleftrightarrow> n = NaN"
  by (cases n) simp_all

lemma stacksLoop_find:
  "stacksLoop E target sts =
     (case find (frameMatches E target) sts of
        None \<Rightarrow> None
      | Some st \<Rightarrow> Some \<lparr>path = target, dl_line = line st, dl_column = column st\<rparr>)"
  by (induction sts)
     (auto simp: getSourceFilepathAndLocationFromStack_def frameMatches_def isNaN_iff)

lemma negative_minus1: "negative (minus1 n) \<longleftrightarrow> belowOne n"
  by (cases n) auto

lemma find_Nil_stacks: "find P sts = Some st \<Longrightarrow> sts \<noteq> []"
  by auto

lemma testMessageForTestError_cases:
  "testMessageForTestError E testItem (Some e) =
     (if refusedFrame E testItem e then Inl IllegalArgument
      else Inr (resolvedMessage E testItem e))"
proof (cases "find (frameMatches E (fsPath E (uri testItem)))
                (case stacks e of None \<Rightarrow> [] | Some sts \<Rightarrow> sts)")
  case None
  then show ?thesis
    by (auto simp: testMessageForTestError_def parseLocationFromStacks_def stacksLoop_find
          refusedFrame_def resolvedMessage_def firstFrameLocation_def wantsDiff_def Let_def
          split: option.splits)
next
  case (Some st)
  then have "(case stacks e of None \<Rightarrow> [] | Some sts \<Rightarrow> sts) \<noteq> []"
    by (rule find_Nil_stacks)
  with Some show ?thesis
    by (auto simp: testMessageForTestError_def parseLocationFromStacks_def stacksLoop_find
          refusedFrame_def resolvedMessage_def firstFrameLocation_def wantsDiff_def Let_def
          newPosition_def negative_minus1
          split: option.splits)
qed



subsection \<open>Marking a test case\<close>






subsection \<open>Marking a node that is not a test case\<close>

text \<open>
  Claim C7. When the node is not registered as a test case, \<^verbatim>\<open>markResult\<close> returns
  normally and makes no call on the run (so no \<^verbatim>\<open>passed\<close> and no \<^verbatim>\<open>failed\<close>). The
  node's \<open>error\<close> is set, to the joined stack-or-message texts, exactly when the result
  is in state \<open>fail\<close> and carries at least one error; in every other case the whole
  tree, the node's \<open>error\<close> included, is left as it was.
\<close>

theorem markResult_not_test_case:
  "\<not> isTestCase (testData s t) \<Longrightarrow>
     markResult E s t res
       = Inr ([],
              if suiteErrors res = [] then s
              else updItem s t
                     (\<lambda>i. i\<lparr>error := Some (join ''\<newline>'' (map stackOrMessage (suiteErrors res)))\<rparr>))"
  by (auto simp: markResult_def markSuite_def suiteErrors_def updItem_def split: option.splits)

theorem markResult_not_test_case_witness:
  "\<not> isTestCase (testData (register emptyTree 0 (TestSuite 1 2)) 0)
   \<and> markResult posixEnv (register emptyTree 0 (TestSuite 1 2)) 0
        (Some \<lparr>state = Fail, errors = Some [plainError ''broken''], duration = None\<rparr>)
       = Inr ([], updItem (register emptyTree 0 (TestSuite 1 2)) 0 (\<lambda>i. i\<lparr>error := Some ''broken''\<rparr>))
   \<and> markResult posixEnv (register emptyTree 0 (TestSuite 1 2)) 0
        (Some \<lparr>state = Pass, errors = None, duration = Some 1\<rparr>)
       = Inr ([], register emptyTree 0 (TestSuite 1 2))"
proof -
  have nc: "\<not> isTestCase (testData (register emptyTree 0 (TestSuite 1 2)) 0)"
    by (simp add: register_def)
  show ?thesis
    using nc
      markResult_not_test_case [OF nc, of posixEnv
        "Some \<lparr>state = Fail, errors = Some [plainError ''broken''], duration = None\<rparr>"]
      markResult_not_test_case [OF nc, of posixEnv
        "Some \<lparr>state = Pass, errors = None, duration = Some 1\<rparr>"]
    by (simp add: suiteErrors_def stackOrMessage_def plainError_def)
qed

subsection \<open>Pruning after a file deletion\<close>

lemma items_deleteStep [simp]: "items (deleteStep s a p) = items s"
  by (simp add: deleteStep_def childrenDelete_def Let_def split: option.splits test_data.splits)

lemma testData_deleteStep [simp]: "testData (deleteStep s a p) = testData s"
  by (simp add: deleteStep_def childrenDelete_def Let_def split: option.splits test_data.splits)

lemma colls_deleteStep:
  "colls (deleteStep s a p) =
     (colls s)(children (items s p) := AList.delete (item_id (items s a)) (childrenOf s p))"
  by (simp add: deleteStep_def childrenDelete_def childrenOf_def Let_def
           split: option.splits test_data.splits)

lemma ancestry_items: "items s' = items s \<Longrightarrow> ancestry s' a ps = ancestry s a ps"
  by (induction ps arbitrary: a) simp_all

lemma recursiveDelete_along:
  "ancestry s a ps \<Longrightarrow> recursiveDelete s a = Some (deleteAlong s a ps)"
proof (induction ps arbitrary: s a)
  case Nil
  then show ?case by (subst recursiveDelete.simps) simp
next
  case (Cons p ps)
  have "ancestry (deleteStep s a p) p ps"
    using Cons.prems ancestry_items [of "deleteStep s a p" s p ps] by simp
  from Cons.IH [OF this] show ?case
    using Cons.prems by (subst recursiveDelete.simps) (simp add: Let_def)
qed

lemma delete_eq_Nil: "AList.delete k al = [] \<longleftrightarrow> list_all (\<lambda>(k', v). k' = k) al"
  by (induction al) (auto simp: AList.delete_eq)


lemma next_deleteStep [simp]: "next_item (deleteStep s a p) = next_item s"
  by (simp add: deleteStep_def childrenDelete_def Let_def split: option.splits test_data.splits)

lemma handle_deleteStep [simp]: "handle (deleteStep s a p) = handle s"
  by (rule ext) (simp add: handle_def)

lemma childrenOf_deleteStep:
  "childrenOf (deleteStep s a p) q =
     (if handle s q = handle s p then AList.delete (item_id (items s a)) (childrenOf s p)
      else childrenOf s q)"
  by (simp add: childrenOf_def colls_deleteStep handle_def)

lemma items_deleteAlong [simp]: "items (deleteAlong s a ps) = items s"
  by (induction ps arbitrary: s a) (simp_all add: Let_def)

lemma testData_deleteAlong [simp]: "testData (deleteAlong s a ps) = testData s"
  by (induction ps arbitrary: s a) (simp_all add: Let_def)

lemma colls_deleteAlong_other:
  "c \<notin> set (map (handle s) ps) \<Longrightarrow> colls (deleteAlong s a ps) c = colls s c"
proof (induction ps arbitrary: s a)
  case Nil
  then show ?case by simp
next
  case (Cons p ps)
  have c1: "c \<noteq> handle s p" and c2: "c \<notin> set (map (handle (deleteStep s a p)) ps)"
    using Cons.prems by auto
  have "colls (deleteStep s a p) c = colls s c"
    using c1 by (simp add: colls_deleteStep handle_def)
  with Cons.IH [OF c2, of p] show ?case
    by (simp add: Let_def)
qed

lemma pruned_cong:
  "items s' = items s \<Longrightarrow> \<forall>p \<in> set ps. colls s' (handle s p) = colls s (handle s p) \<Longrightarrow>
     pruned s' a ps = pruned s a ps"
  by (induction ps arbitrary: a) (simp_all add: childrenOf_def handle_def)

lemma pruned_deleteStep:
  assumes "handle s p \<notin> set (map (handle s) ps)"
  shows "pruned (deleteStep s a p) b ps = pruned s b ps"
proof (rule pruned_cong)
  show "items (deleteStep s a p) = items s" by simp
  show "\<forall>q \<in> set ps. colls (deleteStep s a p) (handle s q) = colls s (handle s q)"
  proof
    fix q
    assume "q \<in> set ps"
    then have "handle s q \<noteq> handle s p" using assms by (metis image_eqI list.set_map)
    then show "colls (deleteStep s a p) (handle s q) = colls s (handle s q)"
      by (simp add: colls_deleteStep handle_def)
  qed
qed

lemma childless_iff:
  "childrenOf (deleteStep s a p) p = [] \<longleftrightarrow>
     list_all (\<lambda>(k, v). k = item_id (items s a)) (childrenOf s p)"
  by (simp add: childrenOf_deleteStep delete_eq_Nil)

lemma deleteAlong_links:
  "distinct (map (handle s) (a # ps)) \<Longrightarrow> (x, q) \<in> set (zip (a # ps) ps) \<Longrightarrow>
     childrenOf (deleteAlong s a ps) q =
       (if x \<in> set (pruned s a ps) then AList.delete (item_id (items s x)) (childrenOf s q)
        else childrenOf s q)"
proof (induction ps arbitrary: s a)
  case Nil
  then show ?case by simp
next
  case (Cons p ps)
  let ?s4 = "deleteStep s a p"
  have hp: "handle s p \<notin> set (map (handle s) ps)" and ha: "handle s a \<noteq> handle s p"
    and ap: "a \<noteq> p" and aps: "a \<notin> set ps"
    using Cons.prems(1) by auto
  show ?case
  proof (cases "(x, q) = (a, p)")
    case True
    have "colls (deleteAlong ?s4 p ps) (handle s p) = colls ?s4 (handle s p)"
      using hp by (intro colls_deleteAlong_other) simp
    then have "childrenOf (deleteAlong ?s4 p ps) p = childrenOf ?s4 p"
      by (simp add: childrenOf_def handle_def)
    with True show ?thesis
      by (simp add: Let_def childrenOf_deleteStep)
  next
    case False
    with Cons.prems(2) have mem: "(x, q) \<in> set (zip (p # ps) ps)" by auto
    then have xin: "x \<in> set (p # ps)" and qin: "q \<in> set ps"
      by (auto dest: set_zip_leftD set_zip_rightD)
    have xa: "x \<noteq> a" using xin ap aps by auto
    have hq: "handle s q \<noteq> handle s p" using qin hp by (metis image_eqI list.set_map)
    have same: "childrenOf ?s4 q = childrenOf s q"
      using hq by (simp add: childrenOf_deleteStep)
    have d4: "distinct (map (handle ?s4) (p # ps))"
      using Cons.prems(1) by simp
    show ?thesis
    proof (cases "childrenOf ?s4 p = []")
      case True
      have "childrenOf (deleteAlong ?s4 p ps) q =
              (if x \<in> set (pruned ?s4 p ps)
               then AList.delete (item_id (items ?s4 x)) (childrenOf ?s4 q)
               else childrenOf ?s4 q)"
        by (rule Cons.IH [OF d4 mem])
      then show ?thesis
        using True xa same hp childless_iff [of s a p]
        by (simp add: Let_def pruned_deleteStep)
    next
      case False
      then show ?thesis
        using xa same childless_iff [of s a p] by (simp add: Let_def)
    qed
  qed
qed

lemma fileItems_deleteStep:
  "fileItems (deleteStep s a p) =
     (if isTestFile (testData s a) then (fileItems s)(item_id (items s a) := None)
      else fileItems s)"
  by (simp add: deleteStep_def childrenDelete_def Let_def split: option.splits test_data.splits)

lemma byFile_deleteStep:
  "testItemsByFile (deleteStep s a p) =
     (case testData s a of
        Some (TestFile pr fp ap pj) \<Rightarrow> (testItemsByFile s)(fp := None)
      | d \<Rightarrow> testItemsByFile s)"
  by (simp add: deleteStep_def childrenDelete_def Let_def split: option.splits test_data.splits)

lemma fileItems_deleteAlong:
  "distinct (map (handle s) ps) \<Longrightarrow>
     fileItems (deleteAlong s a ps) k =
       (if k \<in> (\<lambda>x. item_id (items s x)) ` {x \<in> set (pruned s a ps). isTestFile (testData s x)}
        then None else fileItems s k)"
proof (induction ps arbitrary: s a)
  case Nil
  then show ?case by simp
next
  case (Cons p ps)
  have hp: "handle s p \<notin> set (map (handle s) ps)" using Cons.prems by auto
  have d4: "distinct (map (handle (deleteStep s a p)) ps)" using Cons.prems by simp
  show ?case
    using Cons.IH [OF d4, of p] hp childless_iff [of s a p]
    by (auto simp: Let_def pruned_deleteStep fileItems_deleteStep)
qed

lemma byFile_deleteAlong_keeps_None:
  "testItemsByFile s k = None \<Longrightarrow> testItemsByFile (deleteAlong s a ps) k = None"
  by (induction ps arbitrary: s a)
     (auto simp: Let_def byFile_deleteStep split: option.splits test_data.splits)

lemma byFile_deleteAlong_first:
  "testData s a = Some (TestFile pr fp ap pj) \<Longrightarrow>
     testItemsByFile (deleteAlong s a (p # ps)) fp = None"
  by (auto simp: Let_def byFile_deleteStep intro: byFile_deleteAlong_keeps_None)


lemmas multiRoot_eval =
  multiRootTree_def twoProjectTree_def multiRoot_def folderNode_def fileNode_def newItem_def
  childrenOf_def handle_def demoApi_def posixEnv_def

lemma getOrCreateFolderTestItem_cached:
  "folderItems s nf = Some c \<Longrightarrow>
     getOrCreateFolderTestItem E ap s nf =
       Some (c, if tag ap \<in> set (tags (items s c)) then s
                else updItem s c (\<lambda>i. i\<lparr>tags := tags i @ [tag ap]\<rparr>))"
  by (subst getOrCreateFolderTestItem.simps) simp

lemma singleRootTree_built:
  "getOrCreateFileTestItem posixEnv demoApi (reset posixEnv 0 loaderTree [''/ws'']) []
     ''/ws/a.test.ts'' = Some (2, singleRootTree)"
proof -
  define r where "r = reset posixEnv 0 loaderTree [''/ws'']"
  have fields: "next_item r = 2" "folderItems r = (\<lambda>k. if k = ''/ws'' then Some 1 else None)"
    "fileItems r = (\<lambda>k. None)" "testItemsByFile r = (\<lambda>k. None)" "flatTestItems r = (\<lambda>k. None)"
    "testData r = (\<lambda>a. if a = 1 then Some (TestFolder None) else None)"
    "colls r = (\<lambda>c. if c = 0 then [(''loader'', 0)] else [])"
    "items r = (\<lambda>a. if a = 0 then (newItem ''loader'' ''Loading'' [] 1)\<lparr>busy := True\<rparr>
                   else if a = 1 then newItem ''file:///ws'' ''<root>'' ''/ws'' 0
                   else newItem [] [] [] 0)"
    unfolding r_def
    by (simp_all add: reset_def loaderTree_def emptyTree_def getOrCreateInlineFolderItem_def
          createTestItem_def childrenReplace_def updItem_def register_def newItem_def
          posixEnv_def Let_def split_def fun_eq_iff)
  have cached: "folderItems r (dirname posixEnv ''/ws/a.test.ts'') = Some 1"
    by (simp add: fields posixEnv_def posixDirname_def)
  have "getOrCreateFileTestItem posixEnv demoApi r [] ''/ws/a.test.ts'' = Some (2, singleRootTree)"
    unfolding getOrCreateFileTestItem_def getOrCreateFolderTestItem_cached [OF cached]
    by (simp add: fields singleRootTree_def createTestItem_def updItem_def register_def
          childrenAdd_def fileLabel_def newItem_def posixEnv_def posixBasename_def demoApi_def
          Let_def fun_eq_iff)
  then show ?thesis by (simp only: r_def)
qed


text \<open>
  Claim C10. Deleting one file node that has a parent removes the whole entry of its
  normalized path from the by-path index, so \<^verbatim>\<open>getFileTestItems\<close> returns the empty list
  for that path afterwards. This holds as well when a file node of the same path and
  another project is a child of the same folder: that node stays a child of the folder,
  stays registered under its own id and keeps its data, yet is no longer listed for the
  path.
\<close>

theorem recursiveDelete_clears_path_entry:
  assumes "ancestry s a (p # ps)"
      and "distinct (map (handle s) (a # p # ps))"
      and "testData s a = Some (TestFile pr fp ap pj)"
      and "normalize E q = fp"
  shows "\<exists>s'. recursiveDelete s a = Some s'
           \<and> getFileTestItems E s' q = []
           \<and> (\<forall>b kb pr' ap' pj'.
                 map_of (childrenOf s p) kb = Some b \<and> kb \<noteq> item_id (items s a)
                 \<and> fileItems s kb = Some b \<and> testData s b = Some (TestFile pr' fp ap' pj')
                 \<longrightarrow> fileItems s' kb = Some b \<and> map_of (childrenOf s' p) kb = Some b
                     \<and> testData s' b = Some (TestFile pr' fp ap' pj'))"
proof -
  define s' where "s' = deleteAlong s a (p # ps)"
  have ret: "recursiveDelete s a = Some s'"
    unfolding s'_def by (rule recursiveDelete_along [OF assms(1)])
  have d: "distinct (map (handle s) (p # ps))" using assms(2) by simp
  have gone: "getFileTestItems E s' q = []"
    unfolding s'_def using byFile_deleteAlong_first [OF assms(3), of p ps] assms(4)
    by (simp only: getFileTestItems_def option.case)
  have td: "testData s' = testData s" unfolding s'_def by (rule testData_deleteAlong)
  have sib: "fileItems s' kb = Some b \<and> map_of (childrenOf s' p) kb = Some b"
    if "map_of (childrenOf s p) kb = Some b" "kb \<noteq> item_id (items s a)"
       "fileItems s kb = Some b" for b kb
  proof -
    have "(kb, b) \<in> set (childrenOf s p)" using that(1) by (rule map_of_SomeD)
    then have keep: "\<not> list_all (\<lambda>(k, v). k = item_id (items s a)) (childrenOf s p)"
      using that(2) by (auto simp: list_all_iff)
    then have pr: "pruned s a (p # ps) = [a]" by simp
    have "childrenOf s' p = AList.delete (item_id (items s a)) (childrenOf s p)"
      unfolding s'_def using deleteAlong_links [OF assms(2), of a p] pr by simp
    moreover have "fileItems s' kb = fileItems s kb"
      unfolding s'_def using fileItems_deleteAlong [OF d, of a kb] pr that(2) by auto
    ultimately show ?thesis using that by simp
  qed
  show ?thesis
    using ret gone sib td by (intro exI [of _ s']) simp
qed



theorem recursiveDelete_clears_path_entry_witness:
  "ancestry twoProjectTree 4 [3, 1]
   \<and> distinct (map (handle twoProjectTree) [4, 3, 1])
   \<and> testData twoProjectTree 4 = Some (TestFile 3 ''/ws/src/a.test.ts'' demoApi ''web'')
   \<and> getFileTestItems posixEnv twoProjectTree ''/ws/src/a.test.ts'' = [4, 5]
   \<and> (\<exists>s'. recursiveDelete twoProjectTree 4 = Some s'
          \<and> getFileTestItems posixEnv s' ''/ws/src/a.test.ts'' = []
          \<and> fileItems s' ''/ws/src/a.test.tsnode'' = Some 5
          \<and> map_of (childrenOf s' 3) ''/ws/src/a.test.tsnode'' = Some 5)"
proof -
  have anc: "ancestry twoProjectTree 4 [3, 1]" by (simp add: multiRoot_eval)
  have dis: "distinct (map (handle twoProjectTree) [4, 3, 1])" by (simp add: multiRoot_eval)
  have dat: "testData twoProjectTree 4 = Some (TestFile 3 ''/ws/src/a.test.ts'' demoApi ''web'')"
    by (simp add: multiRoot_eval)
  have nrm: "normalize posixEnv ''/ws/src/a.test.ts'' = ''/ws/src/a.test.ts''"
    by (simp add: posixEnv_def)
  have before: "getFileTestItems posixEnv twoProjectTree ''/ws/src/a.test.ts'' = [4, 5]"
    by (simp add: getFileTestItems_def multiRoot_eval)
  have sib: "map_of (childrenOf twoProjectTree 3) ''/ws/src/a.test.tsnode'' = Some 5
             \<and> ''/ws/src/a.test.tsnode'' \<noteq> item_id (items twoProjectTree 4)
             \<and> fileItems twoProjectTree ''/ws/src/a.test.tsnode'' = Some 5
             \<and> testData twoProjectTree 5 = Some (TestFile 3 ''/ws/src/a.test.ts'' demoApi ''node'')"
    by (simp add: multiRoot_eval)
  from recursiveDelete_clears_path_entry [OF anc dis dat nrm] sib
  have "\<exists>s'. recursiveDelete twoProjectTree 4 = Some s'
          \<and> getFileTestItems posixEnv s' ''/ws/src/a.test.ts'' = []
          \<and> fileItems s' ''/ws/src/a.test.tsnode'' = Some 5
          \<and> map_of (childrenOf s' 3) ''/ws/src/a.test.tsnode'' = Some 5"
    by blast
  with anc dis dat before show ?thesis by blast
qed

subsection \<open>File nodes per project\<close>

lemma updItem_fields [simp]:
  "items (updItem s a f) = (items s)(a := f (items s a))"
  "next_item (updItem s a f) = next_item s"
  "colls (updItem s a f) = colls s"
  "testData (updItem s a f) = testData s"
  "flatTestItems (updItem s a f) = flatTestItems s"
  "fileItems (updItem s a f) = fileItems s"
  "folderItems (updItem s a f) = folderItems s"
  "testItemsByFile (updItem s a f) = testItemsByFile s"
  by (simp_all add: updItem_def)

lemma register_fields [simp]:
  "items (register s a d) = items s"
  "next_item (register s a d) = next_item s"
  "colls (register s a d) = colls s"
  "testData (register s a d) = (testData s)(a := Some d)"
  "flatTestItems (register s a d) = flatTestItems s"
  "fileItems (register s a d) = fileItems s"
  "folderItems (register s a d) = folderItems s"
  "testItemsByFile (register s a d) = testItemsByFile s"
  by (simp_all add: register_def)

lemma createTestItem_fields [simp]:
  "fst (createTestItem s i l u) = next_item s"
  "items (snd (createTestItem s i l u)) = (items s)(next_item s := newItem i l u (Suc (next_item s)))"
  "next_item (snd (createTestItem s i l u)) = Suc (next_item s)"
  "colls (snd (createTestItem s i l u)) = (colls s)(Suc (next_item s) := [])"
  "testData (snd (createTestItem s i l u)) = (testData s)(next_item s := None)"
  "flatTestItems (snd (createTestItem s i l u)) = flatTestItems s"
  "fileItems (snd (createTestItem s i l u)) = fileItems s"
  "folderItems (snd (createTestItem s i l u)) = folderItems s"
  "testItemsByFile (snd (createTestItem s i l u)) = testItemsByFile s"
  by (simp_all add: createTestItem_def Let_def)

lemma childrenAdd_fields [simp]:
  "items (childrenAdd s p a) =
     (items s)(a := (items s a)\<lparr>parent := (if children (items s p) = 0 then None else Some p)\<rparr>)"
  "next_item (childrenAdd s p a) = next_item s"
  "testData (childrenAdd s p a) = testData s"
  "flatTestItems (childrenAdd s p a) = flatTestItems s"
  "fileItems (childrenAdd s p a) = fileItems s"
  "folderItems (childrenAdd s p a) = folderItems s"
  "testItemsByFile (childrenAdd s p a) = testItemsByFile s"
  by (simp_all add: childrenAdd_def Let_def)

lemma newItem_fields [simp]:
  "item_id (newItem i l u c) = i" "label (newItem i l u c) = l" "uri (newItem i l u c) = u"
  "children (newItem i l u c) = c" "parent (newItem i l u c) = None" "tags (newItem i l u c) = []"
  "item_range (newItem i l u c) = None" "sortText (newItem i l u c) = None"
  "error (newItem i l u c) = None" "canResolveChildren (newItem i l u c) = False"
  "busy (newItem i l u c) = False"
  by (simp_all add: newItem_def)

lemma createFolderItem_fields [simp]:
  "fst (createFolderItem E s u par) = next_item s"
  "items (snd (createFolderItem E s u par)) =
     (items s)(next_item s := newItem (normalize E (fsPath E u))
                 (basename E (normalize E (fsPath E u))) u (Suc (next_item s)))"
  "next_item (snd (createFolderItem E s u par)) = Suc (next_item s)"
  "colls (snd (createFolderItem E s u par)) = (colls s)(Suc (next_item s) := [])"
  "testData (snd (createFolderItem E s u par)) = (testData s)(next_item s := Some (TestFolder par))"
  "flatTestItems (snd (createFolderItem E s u par)) = flatTestItems s"
  "fileItems (snd (createFolderItem E s u par)) = fileItems s"
  "folderItems (snd (createFolderItem E s u par)) = folderItems s"
  "testItemsByFile (snd (createFolderItem E s u par)) = testItemsByFile s"
  by (simp_all add: createFolderItem_def Let_def split_def newItem_def)

lemma keepsItems_refl [simp]: "keepsItems s s"
  by (simp add: keepsItems_def)

lemma getOrCreateFolderTestItem_new:
  "folderItems s nf = None \<Longrightarrow>
     getOrCreateFolderTestItem E ap s (dirname E nf) = Some (parentItem, s1) \<Longrightarrow>
     getOrCreateFolderTestItem E ap s nf =
       Some (next_item s1,
         (childrenAdd
            (updItem (snd (createFolderItem E s1 nf (Some parentItem))) (next_item s1)
               (\<lambda>i. i\<lparr>tags := [tag ap]\<rparr>))
            parentItem (next_item s1))
          \<lparr>folderItems := (folderItems s1)(nf := Some (next_item s1))\<rparr>)"
  by (subst getOrCreateFolderTestItem.simps) (simp add: Let_def split_def)

lemma getOrCreateFileTestItem_cached:
  "fileItems s (normalize E f @ project) = Some c \<Longrightarrow>
     getOrCreateFileTestItem E ap s project f = Some (c, s)"
  by (simp add: getOrCreateFileTestItem_def)

lemma getOrCreateFileTestItem_new:
  "fileItems s (normalize E f @ project) = None \<Longrightarrow>
     getOrCreateFolderTestItem E ap s (dirname E f) = Some (parentItem, s1) \<Longrightarrow>
     getOrCreateFileTestItem E ap s project f
       = Some (next_item s1, newFileTree E ap s1 parentItem project f)"
  by (simp add: getOrCreateFileTestItem_def newFileTree_def Let_def split_def)

lemma newFileTree_fields:
  "next_item (newFileTree E ap s1 p project f) = Suc (next_item s1)"
  "fileItems (newFileTree E ap s1 p project f)
     = (fileItems s1)(normalize E f @ project := Some (next_item s1))"
  "testItemsByFile (newFileTree E ap s1 p project f)
     = (testItemsByFile s1)(normalize E f :=
          Some ((case testItemsByFile s1 (normalize E f) of None \<Rightarrow> [] | Some xs \<Rightarrow> xs)
                @ [next_item s1]))"
  "folderItems (newFileTree E ap s1 p project f) = folderItems s1"
  "flatTestItems (newFileTree E ap s1 p project f) = flatTestItems s1"
  "item_id (items (newFileTree E ap s1 p project f) (next_item s1)) = normalize E f @ project"
  "label (items (newFileTree E ap s1 p project f) (next_item s1)) = fileLabel E project f"
  "children (items (newFileTree E ap s1 p project f) (next_item s1)) = Suc (next_item s1)"
  "testData (newFileTree E ap s1 p project f) (next_item s1)
     = Some (TestFile p (normalize E f) ap project)"
  "keepsItems s1 (newFileTree E ap s1 p project f)"
  by (simp_all add: newFileTree_def Let_def keepsItems_def)

text \<open>
  Claim C5, at its failing input. The key of a file node is the plain concatenation of
  the normalized path and the project name, so the pair of \<^verbatim>\<open>/ws/src/a.test.ts\<close> and the
  project \<^verbatim>\<open>x\<close> has the key of \<^verbatim>\<open>/ws/src/a.test.tsx\<close> without a project. After the
  discovery of the latter (node 4) the request for the former returns the same node 4:
  its label is \<^verbatim>\<open>a.test.tsx\<close>, not \<^verbatim>\<open>[x] a.test.ts\<close>, and no node is listed for the path
  \<^verbatim>\<open>/ws/src/a.test.ts\<close>.
\<close>

theorem getOrCreateFileTestItem_key_collision:
  "Option.bind
     (getOrCreateFileTestItem posixEnv demoApi (multiRoot []) [] ''/ws/src/a.test.tsx'')
     (\<lambda>(a, s1).
        map_option
          (\<lambda>(b, s2). (a, b, label (items s2 b), getFileTestItems posixEnv s2 ''/ws/src/a.test.ts''))
          (getOrCreateFileTestItem posixEnv demoApi s1 ''x'' ''/ws/src/a.test.ts''))
   = Some (4, 4, ''a.test.tsx'', [])"
proof -
  let ?T = "newFileTree posixEnv demoApi (multiRoot []) 3 [] ''/ws/src/a.test.tsx''"
  have nrm: "normalize posixEnv p = p" for p by (simp add: posixEnv_def)
  have dir: "dirname posixEnv ''/ws/src/a.test.tsx'' = ''/ws/src''"
    by (simp add: posixEnv_def posixDirname_def)
  have cached: "folderItems (multiRoot []) (dirname posixEnv ''/ws/src/a.test.tsx'') = Some 3"
    unfolding dir by (simp add: multiRoot_def)
  have none: "fileItems (multiRoot []) (normalize posixEnv ''/ws/src/a.test.tsx'' @ []) = None"
    by (simp add: multiRoot_def)
  have n: "next_item (multiRoot []) = 4" by (simp add: multiRoot_def)
  have folder: "getOrCreateFolderTestItem posixEnv demoApi (multiRoot [])
                  (dirname posixEnv ''/ws/src/a.test.tsx'') = Some (3, multiRoot [])"
    unfolding getOrCreateFolderTestItem_cached [OF cached]
    by (simp add: multiRoot_def folderNode_def demoApi_def)
  have first: "getOrCreateFileTestItem posixEnv demoApi (multiRoot []) [] ''/ws/src/a.test.tsx''
                 = Some (4, ?T)"
    using getOrCreateFileTestItem_new [OF none folder] by (simp add: n)
  have key: "fileItems ?T (normalize posixEnv ''/ws/src/a.test.ts'' @ ''x'') = Some 4"
    by (simp add: newFileTree_fields nrm n)
  have second: "getOrCreateFileTestItem posixEnv demoApi ?T ''x'' ''/ws/src/a.test.ts''
                  = Some (4, ?T)"
    using key by (rule getOrCreateFileTestItem_cached)
  have lab: "label (items ?T 4) = ''a.test.tsx''"
    using newFileTree_fields(7) [of posixEnv demoApi "multiRoot []" 3 "[]" "''/ws/src/a.test.tsx''"]
    by (simp add: n fileLabel_def posixEnv_def posixBasename_def)
  have lst: "getFileTestItems posixEnv ?T ''/ws/src/a.test.ts'' = []"
    by (simp add: getFileTestItems_def newFileTree_fields nrm multiRoot_def)
  show ?thesis
    unfolding first by (simp add: second lab lst)
qed

subsection \<open>Deleting below the root of a single folder\<close>

lemma nestedRootTree_built:
  "getOrCreateFileTestItem posixEnv demoApi (reset posixEnv 0 loaderTree [''/ws'']) []
     ''/ws/src/a.test.ts'' = Some (3, nestedRootTree)"
proof -
  define r where "r = reset posixEnv 0 loaderTree [''/ws'']"
  have fields: "next_item r = 2" "folderItems r = (\<lambda>k. if k = ''/ws'' then Some 1 else None)"
    "fileItems r = (\<lambda>k. None)" "testItemsByFile r = (\<lambda>k. None)" "flatTestItems r = (\<lambda>k. None)"
    "testData r = (\<lambda>a. if a = 1 then Some (TestFolder None) else None)"
    "colls r = (\<lambda>c. if c = 0 then [(''loader'', 0)] else [])"
    "items r = (\<lambda>a. if a = 0 then (newItem ''loader'' ''Loading'' [] 1)\<lparr>busy := True\<rparr>
                   else if a = 1 then newItem ''file:///ws'' ''<root>'' ''/ws'' 0
                   else newItem [] [] [] 0)"
    unfolding r_def
    by (simp_all add: reset_def loaderTree_def emptyTree_def getOrCreateInlineFolderItem_def
          createTestItem_def childrenReplace_def updItem_def register_def newItem_def
          posixEnv_def Let_def split_def fun_eq_iff)
  have d1: "dirname posixEnv ''/ws/src/a.test.ts'' = ''/ws/src''"
    and d2: "dirname posixEnv ''/ws/src'' = ''/ws''"
    by (simp_all add: posixEnv_def posixDirname_def)
  define r1 where "r1 = updItem r 1 (\<lambda>i. i\<lparr>tags := tags i @ [tag demoApi]\<rparr>)"
  have root: "getOrCreateFolderTestItem posixEnv demoApi r (dirname posixEnv ''/ws/src'') = Some (1, r1)"
    unfolding d2 r1_def
    by (subst getOrCreateFolderTestItem.simps) (simp add: fields newItem_def)
  have none: "folderItems r ''/ws/src'' = None" by (simp add: fields)
  note folder = getOrCreateFolderTestItem_new [OF none root]
  have nofile: "fileItems r (normalize posixEnv ''/ws/src/a.test.ts'' @ []) = None"
    by (simp add: fields)
  have "getOrCreateFileTestItem posixEnv demoApi r [] ''/ws/src/a.test.ts'' = Some (3, nestedRootTree)"
    unfolding getOrCreateFileTestItem_new [OF nofile folder [unfolded d1 [symmetric]]]
    apply (simp add: r1_def fields)
    apply (simp add: newFileTree_def nestedRootTree_def createFolderItem_def createTestItem_def
          updItem_def register_def childrenAdd_def fileLabel_def newItem_def posixEnv_def
          posixBasename_def posixDirname_def demoApi_def Let_def fun_eq_iff fields)
    done
  then show ?thesis by (simp only: r_def)
qed

text \<open>
  Claim C6, at its failing inputs. In a workspace of the single folder \<^verbatim>\<open>/ws\<close> the items
  directly below the root are children of \<^verbatim>\<open>controller.items\<close>, so the editor leaves
  their \<^verbatim>\<open>parent\<close> undefined, and the guard at the head of \<^verbatim>\<open>recursiveDelete\<close> returns
  for them as it does for the root. The two trees are the ones that \<^verbatim>\<open>reset\<close> and the
  discovery of one file build. When \<^verbatim>\<open>/ws/a.test.ts\<close> is deleted the watcher's callback
  changes nothing: the file node is still registered, still listed for its path and
  still a child of the root collection. When \<^verbatim>\<open>/ws/src/a.test.ts\<close> is deleted its file
  node is pruned, but the folder node of \<^verbatim>\<open>/ws/src\<close>, now without children, stays in the
  root collection and in the index of folders.
\<close>

theorem onDidDelete_keeps_top_level_nodes:
  "getOrCreateFileTestItem posixEnv demoApi (reset posixEnv 0 loaderTree [''/ws'']) []
     ''/ws/a.test.ts'' = Some (2, singleRootTree)
   \<and> fileItems singleRootTree ''/ws/a.test.ts'' = Some 2
   \<and> isTestFile (testData singleRootTree 2)
   \<and> getFileTestItems posixEnv singleRootTree ''/ws/a.test.ts'' = [2]
   \<and> map_of (colls singleRootTree 0) ''/ws/a.test.ts'' = Some 2
   \<and> onDidDelete posixEnv singleRootTree ''/ws/a.test.ts'' = Some singleRootTree
   \<and> getOrCreateFileTestItem posixEnv demoApi (reset posixEnv 0 loaderTree [''/ws'']) []
        ''/ws/src/a.test.ts'' = Some (3, nestedRootTree)
   \<and> map_option
         (\<lambda>s'. (fileItems s' ''/ws/src/a.test.ts'', childrenOf s' 2, folderItems s' ''/ws/src'',
                map_of (colls s' 0) ''/ws/src''))
         (onDidDelete posixEnv nestedRootTree ''/ws/src/a.test.ts'')
       = Some (None, [], Some 2, Some 2)"
proof -
  have a: "fileItems singleRootTree ''/ws/a.test.ts'' = Some 2" by (simp add: singleRootTree_def)
  have b: "isTestFile (testData singleRootTree 2)" by (simp add: singleRootTree_def)
  have c: "testItemsByFile singleRootTree ''/ws/a.test.ts'' = Some [2]" by (simp add: singleRootTree_def)
  have d: "map_of (colls singleRootTree 0) ''/ws/a.test.ts'' = Some 2" by (simp add: singleRootTree_def)
  have e: "parent (items singleRootTree 2) = None" by (simp add: singleRootTree_def newItem_def)
  have f: "recursiveDelete singleRootTree 2 = Some singleRootTree"
    by (subst recursiveDelete.simps) (simp add: e)
  have g: "onDidDelete posixEnv singleRootTree ''/ws/a.test.ts'' = Some singleRootTree"
    by (simp add: onDidDelete_def posixEnv_def c f)
  have h: "getFileTestItems posixEnv singleRootTree ''/ws/a.test.ts'' = [2]"
    by (simp add: getFileTestItems_def posixEnv_def c)
  have c': "testItemsByFile nestedRootTree ''/ws/src/a.test.ts'' = Some [3]"
    by (simp add: nestedRootTree_def)
  have p3: "parent (items nestedRootTree 3) = Some 2"
    by (simp add: nestedRootTree_def newItem_def)
  define s4 where "s4 = deleteStep nestedRootTree 3 2"
  have e': "childrenOf s4 2 = []" "parent (items s4 2) = None"
    "folderItems s4 ''/ws/src'' = Some 2" "map_of (colls s4 0) ''/ws/src'' = Some 2"
    "fileItems s4 ''/ws/src/a.test.ts'' = None"
    unfolding s4_def
    by (simp_all add: deleteStep_def childrenDelete_def childrenOf_def nestedRootTree_def
          newItem_def Let_def)
  have f2: "recursiveDelete s4 2 = Some s4"
    by (subst recursiveDelete.simps) (simp add: e')
  have f3: "recursiveDelete nestedRootTree 3 = Some s4"
    by (subst recursiveDelete.simps) (simp add: p3 s4_def [symmetric] e' f2)
  have k: "map_option
         (\<lambda>s'. (fileItems s' ''/ws/src/a.test.ts'', childrenOf s' 2, folderItems s' ''/ws/src'',
                map_of (colls s' 0) ''/ws/src''))
         (onDidDelete posixEnv nestedRootTree ''/ws/src/a.test.ts'')
       = Some (None, [], Some 2, Some 2)"
    by (simp add: onDidDelete_def posixEnv_def c' f3 e')
  from singleRootTree_built a b h d g nestedRootTree_built k show ?thesis by (intro conjI)
qed

subsection \<open>Synchronising with a collection report\<close>

lemma updItem_at: "items (updItem s a f) a = f (items s a)"
  by simp

lemma updItem_other: "x \<noteq> a \<Longrightarrow> items (updItem s a f) x = items s x"
  by simp

lemma childrenAdd_at:
  "items (childrenAdd s p a) a =
     (items s a)\<lparr>parent := (if children (items s p) = 0 then None else Some p)\<rparr>"
  by simp

lemma childrenAdd_other: "x \<noteq> a \<Longrightarrow> items (childrenAdd s p a) x = items s x"
  by simp

lemma flat_upd_fields [simp]:
  "items (s\<lparr>flatTestItems := F\<rparr>) = items s"
  "colls (s\<lparr>flatTestItems := F\<rparr>) = colls s"
  by simp_all

lemmas pointwise = updItem_at updItem_other childrenAdd_at childrenAdd_other

lemma newPosition_ok: "1 \<le> l \<Longrightarrow> 0 \<le> c \<Longrightarrow> newPosition (Num (l - 1)) (Num c) = Inr (Position (Num (l - 1)) (Num c))"
  by (simp add: newPosition_def)

lemma refreshTask_touch:
  assumes "locatable t"
  shows "refreshTask tg fd t par s =
     (case flatTestItems s (task_id t) of
        Some a \<Rightarrow> Inr (a, touchItem tg fd t par a s)
      | None \<Rightarrow>
          Inr (next_item s,
               touchItem tg fd t par (next_item s)
                 (snd (createTestItem s (task_id t) (name t) (uri (items s par))))))"
proof (cases t)
  case (Task tid nm ty loc res sub)
  show ?thesis
  proof (cases loc)
    case None
    show ?thesis
      unfolding Task None
      by (cases "flatTestItems s tid")
         (simp_all only: refreshTask_def touchItem_def createTestItem_def Let_def task.case
            task.sel option.case prod.case snd_conv fst_conv sum.case)
  next
    case (Some lc)
    obtain l c where lc: "lc = (l, c)" by (cases lc)
    have p: "newPosition (Num (l - 1)) (Num c) = Inr (Position (Num (l - 1)) (Num c))"
      using assms unfolding Task Some lc by (simp add: locatable_def newPosition_ok)
    show ?thesis
      unfolding Task Some lc
      by (cases "flatTestItems s tid")
         (simp_all only: refreshTask_def touchItem_def createTestItem_def Let_def task.case
            task.sel option.case prod.case snd_conv fst_conv sum.case p pointRange_def)
  qed
qed

lemma touchItem_next [simp]: "next_item (touchItem tg fd t par a s) = next_item s"
  by (cases t) (simp add: touchItem_def Let_def split: option.splits prod.splits)

lemma touchItem_flat [simp]:
  "flatTestItems (touchItem tg fd t par a s) = (flatTestItems s)(task_id t := Some a)"
  by (cases t) (simp add: touchItem_def Let_def split: option.splits prod.splits)

lemma touchItem_items_other:
  "x \<noteq> a \<Longrightarrow> items (touchItem tg fd t par a s) x = items s x"
  by (cases t)
     (simp add: touchItem_def Let_def pointwise
           del: updItem_fields(1) childrenAdd_fields(1) split: option.splits prod.splits)

lemma touchItem_id: "item_id (items (touchItem tg fd t par a s) x) = item_id (items s x)"
  by (cases t; cases "x = a")
     (simp_all add: touchItem_def Let_def pointwise
           del: updItem_fields(1) childrenAdd_fields(1) split: option.splits prod.splits)

lemma touchItem_range:
  "location t = Some (l, c) \<Longrightarrow>
     item_range (items (touchItem tg fd t par a s) a) = Some (pointRange (l - 1) c)"
  by (cases t)
     (simp add: touchItem_def Let_def pointwise
           del: updItem_fields(1) childrenAdd_fields(1) split: option.splits prod.splits)

lemma touchesOnly_next: "touchesOnly ids s s' \<Longrightarrow> next_item s \<le> next_item s'"
  by (simp add: touchesOnly_def)

lemma touchesOnly_id:
  "touchesOnly ids s s' \<Longrightarrow> x < next_item s \<Longrightarrow> item_id (items s' x) = item_id (items s x)"
  by (simp add: touchesOnly_def)

lemma touchesOnly_same:
  "touchesOnly ids s s' \<Longrightarrow> x < next_item s \<Longrightarrow> item_id (items s x) \<notin> ids \<Longrightarrow>
     items s' x = items s x"
  by (simp add: touchesOnly_def)

lemma touchesOnly_new:
  "touchesOnly ids s s' \<Longrightarrow> next_item s \<le> x \<Longrightarrow> x < next_item s' \<Longrightarrow>
     item_id (items s' x) \<in> ids"
  by (simp add: touchesOnly_def)

lemma touchesOnly_flat:
  "touchesOnly ids s s' \<Longrightarrow> t \<notin> ids \<Longrightarrow> flatTestItems s' t = flatTestItems s t"
  by (simp add: touchesOnly_def)

lemma touchesOnly_indexed:
  "touchesOnly ids s s' \<Longrightarrow> t \<in> ids \<Longrightarrow>
     \<exists>a. flatTestItems s' t = Some a \<and> a < next_item s' \<and> item_id (items s' a) = t"
  by (simp add: touchesOnly_def)

lemma touchesOnly_indexOk:
  assumes c: "touchesOnly ids s s'" and i: "indexOk U s"
  shows "indexOk U s'"
  unfolding indexOk_def
proof (intro ballI allI impI)
  fix t a
  assume t: "t \<in> U" and f: "flatTestItems s' t = Some a"
  show "a < next_item s' \<and> item_id (items s' a) = t"
  proof (cases "t \<in> ids")
    case True
    from touchesOnly_indexed [OF c True] f show ?thesis by auto
  next
    case False
    then have "flatTestItems s t = Some a" using touchesOnly_flat [OF c False] f by simp
    with i t have a: "a < next_item s" "item_id (items s a) = t"
      by (auto simp: indexOk_def)
    with touchesOnly_id [OF c a(1)] touchesOnly_next [OF c] show ?thesis by simp
  qed
qed

lemma touchesOnly_compose:
  assumes c1: "touchesOnly A s s1" and c2: "touchesOnly B s1 s2"
  shows "touchesOnly (A \<union> B) s s2"
proof -
  have n1: "next_item s \<le> next_item s1" and n2: "next_item s1 \<le> next_item s2"
    using c1 c2 by (auto dest: touchesOnly_next)
  have ids: "item_id (items s2 x) = item_id (items s x)" if "x < next_item s" for x
    using that n1 touchesOnly_id [OF c1 that] touchesOnly_id [OF c2, of x] by simp
  have same: "items s2 x = items s x"
    if x: "x < next_item s" and nin: "item_id (items s x) \<notin> A \<union> B" for x
  proof -
    have a: "item_id (items s x) \<notin> A" and b: "item_id (items s1 x) \<notin> B"
      using nin touchesOnly_id [OF c1 x] by auto
    have x1: "x < next_item s1" using x n1 by simp
    show ?thesis
      using touchesOnly_same [OF c1 x a] touchesOnly_same [OF c2 x1 b] by simp
  qed
  have new: "item_id (items s2 x) \<in> A \<union> B"
    if x: "next_item s \<le> x" "x < next_item s2" for x
  proof (cases "x < next_item s1")
    case True
    then show ?thesis
      using touchesOnly_new [OF c1 x(1) True] touchesOnly_id [OF c2 True] by simp
  next
    case False
    then show ?thesis using touchesOnly_new [OF c2 _ x(2), of ] by simp
  qed
  have flat: "flatTestItems s2 t = flatTestItems s t" if "t \<notin> A \<union> B" for t
    using that touchesOnly_flat [OF c1, of t] touchesOnly_flat [OF c2, of t] by simp
  have indexed: "\<exists>a. flatTestItems s2 t = Some a \<and> a < next_item s2 \<and> item_id (items s2 a) = t"
    if t: "t \<in> A \<union> B" for t
  proof (cases "t \<in> B")
    case True
    then show ?thesis by (rule touchesOnly_indexed [OF c2])
  next
    case False
    then have "t \<in> A" using t by simp
    from touchesOnly_indexed [OF c1 this] obtain a where
      a: "flatTestItems s1 t = Some a" "a < next_item s1" "item_id (items s1 a) = t"
      by blast
    show ?thesis
      using a n2 touchesOnly_flat [OF c2 False] touchesOnly_id [OF c2 a(2)]
      by (intro exI [of _ a]) simp
  qed
  show ?thesis
    unfolding touchesOnly_def
    using n1 n2 ids same new flat indexed by (intro conjI) auto
qed

lemma touch_cached:
  assumes "flatTestItems s (task_id t) = Some a" and "a < next_item s"
      and "item_id (items s a) = task_id t"
  shows "touchesOnly {task_id t} s (touchItem tg fd t par a s)"
  unfolding touchesOnly_def
  using assms by (auto simp: touchItem_id intro!: touchItem_items_other)

lemma touch_fresh:
  "touchesOnly {task_id t} s
     (touchItem tg fd t par (next_item s) (snd (createTestItem s (task_id t) nm u)))"
  unfolding touchesOnly_def
  by (auto simp: touchItem_id touchItem_items_other less_Suc_eq)

lemma pruneChildren_fields [simp]:
  "items (pruneChildren l par s) = items s"
  "next_item (pruneChildren l par s) = next_item s"
  "flatTestItems (pruneChildren l par s) = flatTestItems s"
  "testData (pruneChildren l par s) = testData s"
  "fileItems (pruneChildren l par s) = fileItems s"
  "folderItems (pruneChildren l par s) = folderItems s"
  "testItemsByFile (pruneChildren l par s) = testItemsByFile s"
  by (simp_all add: pruneChildren_def Let_def)

lemma touchesOnly_prune:
  "touchesOnly ids s s' \<Longrightarrow> touchesOnly ids s (pruneChildren l par s')"
  by (simp add: touchesOnly_def)

lemma rangesShown_prune [simp]: "rangesShown T (pruneChildren l par s) = rangesShown T s"
  by (simp add: rangesShown_def)

lemma allTasks_ids:
  shows "map task_id (allTasks ts) = allIds ts"
    and "map task_id (subTasks t) = taskIds t"
  by (induction ts and t rule: allTasks_subTasks.induct) (simp_all split: option.splits)

lemma rangesShown_Un: "rangesShown (A \<union> B) s \<longleftrightarrow> rangesShown A s \<and> rangesShown B s"
  by (auto simp: rangesShown_def)

lemma rangesShown_stable:
  assumes r: "rangesShown T s" and i: "indexOk U s" and u: "task_id ` T \<subseteq> U"
      and c: "touchesOnly B s s'" and d: "task_id ` T \<inter> B = {}"
  shows "rangesShown T s'"
  unfolding rangesShown_def
proof (intro ballI allI impI)
  fix t l c0
  assume t: "t \<in> T" and loc: "location t = Some (l, c0)"
  from r t loc obtain a where a: "flatTestItems s (task_id t) = Some a"
    and rg: "item_range (items s a) = Some (pointRange (l - 1) c0)"
    unfolding rangesShown_def by blast
  have nb: "task_id t \<notin> B" using t d by auto
  have "task_id t \<in> U" using t u by auto
  with i a have lt: "a < next_item s" and ia: "item_id (items s a) = task_id t"
    by (auto simp: indexOk_def)
  have "flatTestItems s' (task_id t) = Some a" using touchesOnly_flat [OF c nb] a by simp
  moreover have "items s' a = items s a" using touchesOnly_same [OF c lt] ia nb by simp
  ultimately show "\<exists>a. flatTestItems s' (task_id t) = Some a
                       \<and> item_range (items s' a) = Some (pointRange (l - 1) c0)"
    using rg by simp
qed

lemma collect_ranges:
  shows "indexOk U s \<Longrightarrow> set (allIds ts) \<subseteq> U \<Longrightarrow> distinct (allIds ts) \<Longrightarrow>
         \<forall>t \<in> set (allTasks ts). locatable t \<Longrightarrow>
           \<exists>s'. collectTasks tg fd ts par s = Inr s'
                \<and> touchesOnly (set (allIds ts)) s s' \<and> rangesShown (set (allTasks ts)) s'"
    and "indexOk U s \<Longrightarrow> set (allIds ts) \<subseteq> U \<Longrightarrow> distinct (allIds ts) \<Longrightarrow>
         \<forall>t \<in> set (allTasks ts). locatable t \<Longrightarrow>
           \<exists>s'. collectLoop tg fd ts par s = Inr s'
                \<and> touchesOnly (set (allIds ts)) s s' \<and> rangesShown (set (allTasks ts)) s'"
    and "indexOk U s \<Longrightarrow> set (taskIds t) \<subseteq> U \<Longrightarrow> distinct (taskIds t) \<Longrightarrow>
         \<forall>u \<in> set (subTasks t). locatable u \<Longrightarrow>
           \<exists>s'. collectTask tg fd t par s = Inr s'
                \<and> touchesOnly (set (taskIds t)) s s' \<and> rangesShown (set (subTasks t)) s'"
proof (induction tg fd ts par s and tg fd ts par s and tg fd t par s
       rule: collectTasks_collectLoop_collectTask.induct)
  case (1 tg fd ts par s)
  from "1.IH" [OF "1.prems"] obtain s' where
    l: "collectLoop tg fd ts par s = Inr s'"
    and c: "touchesOnly (set (allIds ts)) s s'" and r: "rangesShown (set (allTasks ts)) s'"
    by blast
  show ?case
    using l touchesOnly_prune [OF c] r by simp
next
  case (2 tg fd par s)
  show ?case by (simp add: touchesOnly_def rangesShown_def)
next
  case (3 tg fd t ts par s)
  have pt: "set (taskIds t) \<subseteq> U" "distinct (taskIds t)" "\<forall>u \<in> set (subTasks t). locatable u"
    and pts: "set (allIds ts) \<subseteq> U" "distinct (allIds ts)" "\<forall>u \<in> set (allTasks ts). locatable u"
    and disj: "set (taskIds t) \<inter> set (allIds ts) = {}"
    using "3.prems" by auto
  from "3.IH"(1) [OF "3.prems"(1) pt] obtain s1 where
    t1: "collectTask tg fd t par s = Inr s1"
    and c1: "touchesOnly (set (taskIds t)) s s1" and r1: "rangesShown (set (subTasks t)) s1"
    by blast
  have i1: "indexOk U s1" using c1 "3.prems"(1) by (rule touchesOnly_indexOk)
  from "3.IH"(2) [OF t1 i1 pts] obtain s2 where
    l2: "collectLoop tg fd ts par s1 = Inr s2"
    and c2: "touchesOnly (set (allIds ts)) s1 s2" and r2: "rangesShown (set (allTasks ts)) s2"
    by blast
  have ids: "task_id ` set (subTasks t) = set (taskIds t)"
    using allTasks_ids(2) [of t] by (metis list.set_map)
  have r1': "rangesShown (set (subTasks t)) s2"
    using r1 i1 _ c2
  proof (rule rangesShown_stable)
    show "task_id ` set (subTasks t) \<subseteq> U" using ids pt(1) by simp
    show "task_id ` set (subTasks t) \<inter> set (allIds ts) = {}" using ids disj by simp
  qed
  have c: "touchesOnly (set (taskIds t) \<union> set (allIds ts)) s s2"
    using c1 c2 by (rule touchesOnly_compose)
  show ?case
    using t1 l2 c r1' r2 by (simp add: rangesShown_Un)
next
  case (4 tg fd tid nm ty loc res sub par s)
  let ?t = "Task tid nm ty loc res sub"
  have tidU: "tid \<in> U" and ob: "locatable ?t" using "4.prems" by auto
  have "\<exists>a s1. refreshTask tg fd ?t par s = Inr (a, touchItem tg fd ?t par a s1)
          \<and> touchesOnly {tid} s (touchItem tg fd ?t par a s1)"
  proof (cases "flatTestItems s tid")
    case None
    then show ?thesis
      using refreshTask_touch [OF ob, of tg fd par s] touch_fresh [of ?t s tg fd par nm]
      by auto
  next
    case (Some a)
    with "4.prems"(1) tidU have a: "a < next_item s" "item_id (items s a) = tid"
      by (auto simp: indexOk_def)
    show ?thesis
      using Some refreshTask_touch [OF ob, of tg fd par s] touch_cached [of s ?t a tg fd par] a
      by auto
  qed
  then obtain a s1 where
    r: "refreshTask tg fd ?t par s = Inr (a, touchItem tg fd ?t par a s1)"
    and c9: "touchesOnly {tid} s (touchItem tg fd ?t par a s1)"
    by blast
  let ?s9 = "touchItem tg fd ?t par a s1"
  have sh9: "rangesShown {?t} ?s9"
    by (simp add: rangesShown_def touchItem_range)
  show ?case
  proof (cases sub)
    case None
    then show ?thesis using r c9 sh9 by simp
  next
    case (Some ts)
    have i9: "indexOk U ?s9" using c9 "4.prems"(1) by (rule touchesOnly_indexOk)
    have sub_ids: "set (allIds ts) \<subseteq> U" "distinct (allIds ts)" "tid \<notin> set (allIds ts)"
      "\<forall>u \<in> set (allTasks ts). locatable u"
      using "4.prems" Some by auto
    from "4.IH" [OF r refl Some i9 sub_ids(1,2,4)] obtain s' where
      t': "collectTasks tg fd ts a ?s9 = Inr s'"
      and c': "touchesOnly (set (allIds ts)) ?s9 s'" and r': "rangesShown (set (allTasks ts)) s'"
      by blast
    have sh': "rangesShown {?t} s'"
      using sh9 i9 _ c'
    proof (rule rangesShown_stable)
      show "task_id ` {?t} \<subseteq> U" using tidU by simp
      show "task_id ` {?t} \<inter> set (allIds ts) = {}" using sub_ids(3) by simp
    qed
    have c: "touchesOnly ({tid} \<union> set (allIds ts)) s s'"
      using c9 c' by (rule touchesOnly_compose)
    show ?thesis
      using r Some t' c sh' r' rangesShown_Un [of "{?t}" "set (allTasks ts)" s'] by simp
  qed
qed

text \<open>
  Claim C4. Let the ids of the report be pairwise distinct and lie in \<open>U\<close>, where the index
  is sound, and let the locations of its tasks be 1-based. Then \<^verbatim>\<open>collectTasks\<close> returns,
  and every task of the report, nested ones included, that has the location \<open>(L, C)\<close> is
  indexed in the tree it returns, and the range of its item is the point \<open>(L - 1, C)\<close>:
  the line is decremented, the column is not. For an error whose first matching stack
  frame has the 1-based line \<open>L'\<close> and column \<open>C'\<close>, the resolver returns a message with
  the position \<open>(L' - 1, C' - 1)\<close>: both are decremented.
\<close>

theorem location_conversion_asymmetric:
  assumes "indexOk U s" and "set (allIds ts) \<subseteq> U" and "distinct (allIds ts)"
      and "\<forall>u \<in> set (allTasks ts). locatable u"
      and "t \<in> set (allTasks ts)" and "location t = Some (L, C)"
      and "stacks e = Some sts"
      and "find (frameMatches E (fsPath E (uri testItem))) sts = Some (frame f L' C')"
      and "1 \<le> L'" and "1 \<le> C'"
  shows "(\<exists>s'. collectTasks tg fd ts par s = Inr s'
            \<and> (\<exists>a. flatTestItems s' (task_id t) = Some a
                    \<and> item_range (items s' a) = Some (pointRange (L - 1) C)))
         \<and> (\<exists>m. testMessageForTestError E testItem (Some e) = Inr m
                \<and> msg_location m
                    = Some (fsPath E (uri testItem), Position (Num (L' - 1)) (Num (C' - 1))))"
proof -
  from collect_ranges(1) [OF assms(1-4), of tg fd par] obtain s' where
    c: "collectTasks tg fd ts par s = Inr s'" and r: "rangesShown (set (allTasks ts)) s'"
    by blast
  from r assms(5,6)
  have a: "\<exists>a. flatTestItems s' (task_id t) = Some a
              \<and> item_range (items s' a) = Some (pointRange (L - 1) C)"
    unfolding rangesShown_def by blast
  have nr: "\<not> refusedFrame E testItem e"
    using assms(7-10) by (simp add: refusedFrame_def frame_def)
  have loc: "firstFrameLocation E testItem e
               = Some (fsPath E (uri testItem), Position (Num (L' - 1)) (Num (C' - 1)))"
    using assms(7,8) by (simp add: firstFrameLocation_def frame_def)
  have b: "\<exists>m. testMessageForTestError E testItem (Some e) = Inr m
                \<and> msg_location m
                    = Some (fsPath E (uri testItem), Position (Num (L' - 1)) (Num (C' - 1)))"
    using nr loc by (simp add: testMessageForTestError_cases resolvedMessage_def)
  from c a b show ?thesis by blast
qed

theorem location_conversion_asymmetric_witness:
  "(\<exists>s'. collectTasks ''vitest'' 4 [Task ''t1'' ''one'' Test (Some (10, 3)) None None] 4
           multiRootTree = Inr s'
         \<and> (\<exists>a. flatTestItems s' ''t1'' = Some a
                 \<and> item_range (items s' a)
                     = Some (Range (Position (Num 9) (Num 3)) (Position (Num 9) (Num 3)))))
   \<and> (\<exists>m. testMessageForTestError posixEnv (items multiRootTree 4)
              (Some (framedError ''boom'' [frame ''/ws/src/a.test.ts'' 10 3])) = Inr m
          \<and> msg_location m = Some (''/ws/src/a.test.ts'', Position (Num 9) (Num 2)))"
proof -
  let ?t = "Task ''t1'' ''one'' Test (Some (10, 3)) None None"
  let ?e = "framedError ''boom'' [frame ''/ws/src/a.test.ts'' 10 3]"
  have i: "indexOk {''t1''} multiRootTree"
    by (simp add: indexOk_def multiRootTree_def multiRoot_def)
  have u: "fsPath posixEnv (uri (items multiRootTree 4)) = ''/ws/src/a.test.ts''"
    by (simp add: multiRootTree_def multiRoot_def fileNode_def newItem_def posixEnv_def)
  have s: "stacks ?e = Some [frame ''/ws/src/a.test.ts'' 10 3]" by (simp add: framedError_def)
  have m: "find (frameMatches posixEnv (fsPath posixEnv (uri (items multiRootTree 4))))
             [frame ''/ws/src/a.test.ts'' 10 3] = Some (frame ''/ws/src/a.test.ts'' 10 3)"
    unfolding u by (simp add: frameMatches_def frame_def posixEnv_def)
  have "set (allIds [?t]) \<subseteq> {''t1''}" "distinct (allIds [?t])"
    "\<forall>u \<in> set (allTasks [?t]). locatable u" "?t \<in> set (allTasks [?t])"
    "location ?t = Some (10, 3)"
    by (simp_all add: locatable_def)
  from location_conversion_asymmetric [OF i this s m, of "''vitest''" 4 4]
  show ?thesis unfolding u pointRange_def by simp
qed


text \<open>
  Claim C1, at its failing input. The file node 4 of the example tree is synchronised
  with a report of the suite \<open>s1\<close> that holds the test \<open>t1\<close>, and then with a report in
  which the id \<open>s1\<close> is a test, which has no \<^verbatim>\<open>tasks\<close>. The loop descends and prunes only
  for a task that has \<^verbatim>\<open>tasks\<close>: after the second call the node of \<open>s1\<close> (item 5) still
  has the child \<open>t1\<close> (item 6), which the latest report does not hold.
\<close>

theorem collectTasks_keeps_children_of_leaf:
  "map_sum id (\<lambda>s'. (childrenOf s' 4, flatTestItems s' ''s1'', childrenOf s' 5))
     (collectAll ''vitest'' 4 4
        [[suiteTask ''s1'' ''a suite'' [leafTask ''t1'' ''one'']], [leafTask ''s1'' ''a suite'']]
        multiRootTree)
   = Inr ([(''s1'', 5)], Some 5, [(''t1'', 6)])"
  by (simp add: multiRootTree_def multiRoot_def fileNode_def newItem_def leafTask_def suiteTask_def
        refreshTask_def createTestItem_def updItem_def register_def childrenAdd_def
        pruneChildren_def childrenOf_def resultErrors_def Let_def)

subsection \<open>Synchronising a file node\<close>

text \<open>
  Claim C9, at its failing input. The report has no task and a result with an empty list
  of errors. \<^verbatim>\<open>collectFile\<close> tests the list for presence only, so it sets the error of
  the file node (item 4) to the joined texts of no error, the empty text, and not to the
  text for a report without tasks. The node is marked as not resolvable.
\<close>

theorem collectFile_empty_error_list:
  "map_option (map_sum id (\<lambda>s'. (error (items s' 4), canResolveChildren (items s' 4))))
     (collectFile posixEnv demoApi multiRootTree emptyReport)
   = Some (Inr (Some [], False))"
proof -
  have g: "getOrCreateFileTestItem posixEnv demoApi multiRootTree [] ''/ws/src/a.test.ts''
             = Some (4, multiRootTree)"
    by (rule getOrCreateFileTestItem_cached)
       (simp add: multiRootTree_def multiRoot_def posixEnv_def)
  show ?thesis
    unfolding collectFile_def emptyReport_def
    by (simp add: g pruneChildren_def resultErrors_def Let_def)
qed

subsection \<open>One open run\<close>


lemma endTestRun_fields [simp]:
  "testRun (endTestRun st) = None"
  "testRunDefer (endTestRun st) = None"
  "runs (endTestRun st) = runs st"
  "defers (endTestRun st) = defers st"
  "waiting (endTestRun st) = waiting st"
  "set (ended (endTestRun st)) = set (ended st) \<union> set_option (testRun st)"
  "set (resolved (endTestRun st)) = set (resolved st) \<union> set_option (testRunDefer st)"
  by (cases "testRun st"; cases "testRunDefer st"; simp add: endTestRun_def)+


lemma openTestRun_fields [simp]:
  "testRun (openTestRun files st) = Some (runs st)"
  "testRunDefer (openTestRun files st) = testRunDefer st"
  "runs (openTestRun files st) = Suc (runs st)"
  "defers (openTestRun files st) = defers st"
  "ended (openTestRun files st) = ended st"
  "resolved (openTestRun files st) = resolved st"
  by (simp_all add: openTestRun_def)

lemma dequeue_fields [simp]:
  "testRun (dequeue i st) = testRun st"
  "testRunDefer (dequeue i st) = testRunDefer st"
  "runs (dequeue i st) = runs st"
  "defers (dequeue i st) = defers st"
  "ended (dequeue i st) = ended st"
  "resolved (dequeue i st) = resolved st"
  by (simp_all add: dequeue_def)

lemma runTestItemsResume_fields [simp]:
  "testRun (runTestItemsResume st) = testRun st"
  "runs (runTestItemsResume st) = runs st"
  "ended (runTestItemsResume st) = ended st"
  "resolved (runTestItemsResume st) = resolved st"
  by (simp_all add: runTestItemsResume_def)



lemma currentOnly_dequeue [simp]: "currentOnly (dequeue i st) = currentOnly st"
  by (simp add: currentOnly_def)

lemma currentOnly_runTestItemsResume [simp]:
  "currentOnly (runTestItemsResume st) = currentOnly st"
  by (simp add: currentOnly_def)

lemma currentOnly_waiting [simp]: "currentOnly (st\<lparr>waiting := w\<rparr>) = currentOnly st"
  by (simp add: currentOnly_def)








end
